theory Spec2Isabelle
  imports Main "HOL-Library.Word" "HOL-Library.Char_ord" "HOL-Library.List_Lexorder"
begin

section \<open>Go strings and the fmt verbs used by mail.go\<close>

text \<open>
  A Go string is a sequence of bytes; \<^typ>\<open>string\<close> is a list of 8-bit characters.
  The three control bytes that mail.go writes as \<^verbatim>\<open>\r\<close>, \<^verbatim>\<open>\n\<close> and \<^verbatim>\<open>\t\<close>:
\<close>

definition CR :: char where
  "CR = CHR 0x0D"

definition LF :: char where
  "LF = CHR 0x0A"

definition TAB :: char where
  "TAB = CHR 0x09"

definition CRLF :: string where
  "CRLF = [CR, LF]"

definition digit_char :: "nat \<Rightarrow> char" where
  "digit_char n = ''0123456789abcdef'' ! (n mod 16)"

text \<open>The digits of a natural number, most significant first (never empty).\<close>

function dec_digits :: "nat \<Rightarrow> string" where
  "dec_digits n = (if n < 10 then [digit_char n] else dec_digits (n div 10) @ [digit_char (n mod 10)])"
  by pat_completeness auto
termination
  by (relation "measure (\<lambda>n. n)") auto

function hex_digits :: "nat \<Rightarrow> string" where
  "hex_digits n = (if n < 16 then [digit_char n] else hex_digits (n div 16) @ [digit_char (n mod 16)])"
  by pat_completeness auto
termination
  by (relation "measure (\<lambda>n. n)") auto

definition pad0 :: "nat \<Rightarrow> string \<Rightarrow> string" where
  "pad0 w s = replicate (w - length s) CHR ''0'' @ s"

text \<open>\<^verbatim>\<open>%d\<close> of a Go int, and \<^verbatim>\<open>strconv.Itoa\<close>.\<close>

definition fmt_d :: "int \<Rightarrow> string" where
  "fmt_d i = (if i < 0 then ''-'' @ dec_digits (nat (- i)) else dec_digits (nat i))"

definition strconv_Itoa :: "int \<Rightarrow> string" where
  "strconv_Itoa i = fmt_d i"

text \<open>\<^verbatim>\<open>%02d\<close>: width 2, padded with zeros after the sign.\<close>

definition fmt_02d :: "int \<Rightarrow> string" where
  "fmt_02d i = (if i < 0 then ''-'' @ pad0 1 (dec_digits (nat (- i))) else pad0 2 (dec_digits (nat i)))"

text \<open>\<^verbatim>\<open>%08x\<close> of a \<^verbatim>\<open>uintptr\<close> (64 bits): lower-case hexadecimal, at least 8 digits.\<close>

type_synonym uintptr = "64 word"

definition fmt_08x :: "uintptr \<Rightarrow> string" where
  "fmt_08x p = pad0 8 (hex_digits (unat p))"

section \<open>The logging framework's event record (logrus)\<close>

text \<open>
  The severities of the logrus this repository imports, most severe first, and
  \<^verbatim>\<open>Level.String\<close>, which names them. (A \<^verbatim>\<open>Level\<close> that is none of the six constants, which
  \<^verbatim>\<open>String\<close> calls "unknown", is not modelled.)
\<close>

datatype Level = PanicLevel | FatalLevel | ErrorLevel | WarnLevel | InfoLevel | DebugLevel

fun Level_String :: "Level \<Rightarrow> string" where
  "Level_String DebugLevel = ''debug''"
| "Level_String InfoLevel = ''info''"
| "Level_String WarnLevel = ''warning''"
| "Level_String ErrorLevel = ''error''"
| "Level_String FatalLevel = ''fatal''"
| "Level_String PanicLevel = ''panic''"

text \<open>
  The wall-clock reading of a \<^verbatim>\<open>time.Time\<close> in its own location, as
  \<^verbatim>\<open>Time.Date\<close> and \<^verbatim>\<open>Time.Clock\<close> return it.
\<close>

record Time =
  Year :: int
  Month :: nat
  Day :: nat
  Hour :: nat
  Minute :: nat
  Second :: nat

text \<open>
  \<^verbatim>\<open>Time.Format(format)\<close> for the layout constant of mail.go,
  \<^verbatim>\<open>format = "20060102 15:04:05"\<close>: a four-digit year, two-digit month and day, a
  space, and the two-digit hour, minute and second separated by colons.
\<close>

definition Time_Format :: "Time \<Rightarrow> string" where
  "Time_Format t =
     (if Year t < 0 then ''-'' @ pad0 4 (dec_digits (nat (- Year t))) else pad0 4 (dec_digits (nat (Year t))))
     @ pad0 2 (dec_digits (Month t)) @ pad0 2 (dec_digits (Day t)) @ '' ''
     @ pad0 2 (dec_digits (Hour t)) @ '':'' @ pad0 2 (dec_digits (Minute t)) @ '':''
     @ pad0 2 (dec_digits (Second t))"

text \<open>
  Go error values. mail.go never inspects an error: it passes the library's error on or
  drops it, so the model only tells the libraries' errors apart by their origin.
\<close>

datatype error =
    ConnectionError
  | TimeoutError
  | AddressFormatError
  | ProtocolError
  | RenderError

text \<open>
  The values a structured field can hold (\<^verbatim>\<open>interface{}\<close>): nil, booleans, integers,
  strings, slices, string-keyed maps, and a channel as the representative of the values
  that encoding/json refuses. A map is an association list in arbitrary order with
  distinct keys: Go gives a map no order of its own.
\<close>

datatype iface =
    VNil
  | VBool bool
  | VInt int
  | VString string
  | VSlice "iface list"
  | VMap "(string \<times> iface) list"
  | VChan

text \<open>
  The encoding/json string quoting with HTML escaping on, as \<^verbatim>\<open>Marshal\<close> uses it, on ASCII
  bytes; bytes from 0x80 on are copied (the string is taken to be valid UTF-8 without
  U+2028 and U+2029). Backspace and form feed get the short escapes \<^verbatim>\<open>\b\<close> and \<^verbatim>\<open>\f\<close>, as
  encoding/json writes them since Go 1.22; the other control bytes below 0x20 get the
  six-byte \<^verbatim>\<open>\u00XX\<close> form.
\<close>

definition json_escape :: "char \<Rightarrow> string" where
  "json_escape b =
     (if b = CHR 0x22 then [CHR 0x5C, CHR 0x22]
      else if b = CHR 0x5C then [CHR 0x5C, CHR 0x5C]
      else if b = LF then [CHR 0x5C, CHR ''n'']
      else if b = CR then [CHR 0x5C, CHR ''r'']
      else if b = TAB then [CHR 0x5C, CHR ''t'']
      else if b = CHR 0x08 then [CHR 0x5C, CHR ''b'']
      else if b = CHR 0x0C then [CHR 0x5C, CHR ''f'']
      else if (of_char b :: nat) < 0x20 \<or> b = CHR ''<'' \<or> b = CHR ''>'' \<or> b = CHR ''&''
        then [CHR 0x5C, CHR ''u'', CHR ''0'', CHR ''0''] @ pad0 2 (hex_digits (of_char b))
      else [b])"

definition json_string :: "string \<Rightarrow> string" where
  "json_string s = [CHR 0x22] @ concat (map json_escape s) @ [CHR 0x22]"

fun sequence_sum :: "('e + 'a) list \<Rightarrow> 'e + 'a list" where
  "sequence_sum [] = Inr []"
| "sequence_sum (Inl e # rs) = Inl e"
| "sequence_sum (Inr x # rs) = (case sequence_sum rs of Inl e \<Rightarrow> Inl e | Inr xs \<Rightarrow> Inr (x # xs))"

fun join :: "string \<Rightarrow> string list \<Rightarrow> string" where
  "join sep [] = []"
| "join sep [x] = x"
| "join sep (x # y # ys) = x @ sep @ join sep (y # ys)"

definition json_newline :: "string \<Rightarrow> string \<Rightarrow> nat \<Rightarrow> string" where
  "json_newline prefix indent depth = [LF] @ prefix @ concat (replicate depth indent)"

text \<open>
  \<^verbatim>\<open>json.MarshalIndent\<close>: every element of a non-empty array or object starts on a line of
  its own, behind the prefix and one copy of the indent per nesting level; the keys of an
  object are written in sorted order; an unsupported value is an error.
\<close>

fun json_encode :: "string \<Rightarrow> string \<Rightarrow> nat \<Rightarrow> iface \<Rightarrow> error + string" where
  "json_encode prefix indent depth VNil = Inr ''null''"
| "json_encode prefix indent depth (VBool b) = Inr (if b then ''true'' else ''false'')"
| "json_encode prefix indent depth (VInt i) = Inr (fmt_d i)"
| "json_encode prefix indent depth (VString s) = Inr (json_string s)"
| "json_encode prefix indent depth (VSlice vs) =
     (if vs = [] then Inr ''[]''
      else case sequence_sum (map (json_encode prefix indent (Suc depth)) vs) of
             Inl e \<Rightarrow> Inl e
           | Inr items \<Rightarrow>
               Inr (''['' @ json_newline prefix indent (Suc depth)
                    @ join ('','' @ json_newline prefix indent (Suc depth)) items
                    @ json_newline prefix indent depth @ '']''))"
| "json_encode prefix indent depth (VMap kvs) =
     (if kvs = [] then Inr ''{}''
      else case sequence_sum
                  (map (\<lambda>kv. case json_encode prefix indent (Suc depth) (snd kv) of
                               Inl e \<Rightarrow> Inl e
                             | Inr t \<Rightarrow> Inr (json_string (fst kv) @ '': '' @ t))
                       (sort_key fst kvs)) of
             Inl e \<Rightarrow> Inl e
           | Inr items \<Rightarrow>
               Inr (''{'' @ json_newline prefix indent (Suc depth)
                    @ join ('','' @ json_newline prefix indent (Suc depth)) items
                    @ json_newline prefix indent depth @ ''}''))"
| "json_encode prefix indent depth VChan = Inl RenderError"

definition json_MarshalIndent :: "iface \<Rightarrow> string \<Rightarrow> string \<Rightarrow> error + string" where
  "json_MarshalIndent v prefix indent = json_encode prefix indent 0 v"

text \<open>
  \<^verbatim>\<open>logrus.Entry\<close>: the fields mail.go reads. \<^verbatim>\<open>Data\<close> is a map that logrus has made, so the
  empty list is the empty map, which renders as \<^verbatim>\<open>{}\<close>; a nil map, which would render as
  \<^verbatim>\<open>null\<close>, is not modelled.
\<close>

record Entry =
  Data :: "(string \<times> iface) list"
  Time :: Time
  Level :: Level
  Message :: string

section \<open>The Go runtime's view of the call stack\<close>

text \<open>
  \<^verbatim>\<open>runtime.Func\<close>: what \<^verbatim>\<open>FuncForPC\<close> resolves a program counter to. \<^verbatim>\<open>FileLine\<close> depends
  on the program counter it is asked about.
\<close>

record Func =
  Func_Name :: string
  Func_Entry :: uintptr
  Func_FileLine :: "uintptr \<Rightarrow> string \<times> int"

text \<open>
  The state of the runtime while \<^verbatim>\<open>createMessage\<close> runs: the program counters of the active
  frames of the calling goroutine, innermost first, and the symbol table. Frame 0 of
  \<open>stack\<close> is the runtime function that inspects the stack (\<^verbatim>\<open>runtime.Callers\<close>), frame 1 is
  its caller, \<^verbatim>\<open>createMessage\<close> itself, frame 2 the caller of \<^verbatim>\<open>createMessage\<close>, and so on.
  \<^verbatim>\<open>FuncForPC\<close> is \<open>None\<close> where the Go function returns nil.
\<close>

record runtime =
  stack :: "uintptr list"
  FuncForPC :: "uintptr \<Rightarrow> Func option"

text \<open>
  \<^verbatim>\<open>runtime.Callers(skip, pc)\<close> fills the slice with the program counters of the frames from
  frame \<open>skip\<close> on, as many as the slice holds, and returns how many it wrote.
\<close>

definition runtime_Callers :: "runtime \<Rightarrow> nat \<Rightarrow> uintptr list \<Rightarrow> nat \<times> uintptr list" where
  "runtime_Callers rt skip pc =
     (let found = take (length pc) (drop skip (stack rt))
      in (length found, found @ drop (length found) pc))"

section \<open>mail.go: the message builder\<close>

definition MAX_DEPTH :: nat where
  "MAX_DEPTH = 100"

text \<open>
  The loop of \<^verbatim>\<open>createMessage\<close>, from the state in which the counter is \<open>i\<close> and the trace
  built so far is \<open>trace\<close>:
  \<^verbatim>\<open>for i := 0; i < depth; i++ { pc := callers[i]; function := runtime.FuncForPC(pc);
  if function == nil { break }; ...; trace += fmt.Sprintf(...) }\<close>
\<close>

function trace_loop :: "runtime \<Rightarrow> uintptr list \<Rightarrow> nat \<Rightarrow> nat \<Rightarrow> string \<Rightarrow> string" where
  "trace_loop rt callers depth i trace =
     (if i < depth then
        (let pc = callers ! i in
         case FuncForPC rt pc of
           None \<Rightarrow> trace
         | Some fn \<Rightarrow>
             (let name = Func_Name fn;
                  entry = Func_Entry fn;
                  (file, line) = Func_FileLine fn pc;
                  trace = trace @ ''Frame '' @ fmt_02d (int i) @ '':'' @ CRLF;
                  trace = trace @ [TAB] @ ''File: '' @ file @ CRLF;
                  trace = trace @ [TAB] @ ''Function: '' @ name @ CRLF;
                  trace = trace @ [TAB] @ ''Line: '' @ fmt_d line @ CRLF;
                  trace = trace @ [TAB] @ ''PC/Entry: 0x'' @ fmt_08x pc @ ''/0x'' @ fmt_08x entry @ CRLF
              in trace_loop rt callers depth (Suc i) trace))
      else trace)"
  by pat_completeness auto
termination
  by (relation "measure (\<lambda>(rt, callers, depth, i, trace). depth - i)") auto

text \<open>The stack-trace section: the first statements of \<^verbatim>\<open>createMessage\<close>.\<close>

definition stack_trace :: "runtime \<Rightarrow> string" where
  "stack_trace rt =
     (let trace = [];
          callers = replicate (MAX_DEPTH + 1) (0 :: uintptr);
          (depth, callers) = runtime_Callers rt 1 callers
      in trace_loop rt callers depth 0 trace)"

definition createMessage :: "runtime \<Rightarrow> Entry \<Rightarrow> string \<Rightarrow> string \<Rightarrow> string \<Rightarrow> string" where
  "createMessage rt entry appname from to =
     (let trace = stack_trace rt;
          subject = appname @ '' - '' @ Level_String (Level entry);
          fields = (case json_MarshalIndent (VMap (Data entry)) [] [TAB] of
                      Inl err \<Rightarrow> []
                    | Inr b \<Rightarrow> b);
          body = Time_Format (Time entry) @ '' - '' @ Message entry @ CRLF @ CRLF;
          body = body @ trace @ CRLF @ CRLF @ ''Data:'' @ CRLF @ CRLF @ fields;
          contents = [];
          contents = (if from \<noteq> [] then contents @ ''From: '' @ from @ CRLF else contents);
          contents = (if to \<noteq> [] then contents @ ''To: '' @ to @ CRLF else contents);
          contents = contents @ ''Subject: '' @ subject @ CRLF @ CRLF @ body @ CRLF @ CRLF
      in contents)"

section \<open>The older variant of the loop (src/unnamed/part_000)\<close>

text \<open>
  The loop of \<^verbatim>\<open>createMessage\<close> in the older variant of the file, with \<^verbatim>\<open>runtime.Caller\<close> as a
  parameter:
  \<^verbatim>\<open>for i := 0; i < 100; i++ { pc, file, line, ok := runtime.Caller(i);
  trace += fmt.Sprintf("%02d: 0x%08x %s:%d\r\n", i, pc, file, line); if !ok { break } }\<close>
\<close>

function trace_loop_part_000 ::
  "(nat \<Rightarrow> uintptr \<times> string \<times> int \<times> bool) \<Rightarrow> nat \<Rightarrow> string \<Rightarrow> string" where
  "trace_loop_part_000 runtime_Caller i trace =
     (if i < 100 then
        (let (pc, file, line, ok) = runtime_Caller i;
             trace = trace @ fmt_02d (int i) @ '': 0x'' @ fmt_08x pc @ '' '' @ file @ '':''
                     @ fmt_d line @ CRLF
         in if \<not> ok then trace else trace_loop_part_000 runtime_Caller (Suc i) trace)
      else trace)"
  by pat_completeness auto
termination
  by (relation "measure (\<lambda>(runtime_Caller, i, trace). 100 - i)") auto

section \<open>The collaborators: net, net/mail and net/smtp\<close>

text \<open>\<^verbatim>\<open>mail.Address\<close>, the result of a successful \<^verbatim>\<open>mail.ParseAddress\<close>.\<close>

record mail_Address =
  Name :: string
  Address :: string

text \<open>\<^verbatim>\<open>smtp.PlainAuth(identity, username, password, host)\<close> only stores its arguments.\<close>

record smtp_Auth =
  auth_identity :: string
  auth_username :: string
  auth_password :: string
  auth_host :: string

definition smtp_PlainAuth :: "string \<Rightarrow> string \<Rightarrow> string \<Rightarrow> string \<Rightarrow> smtp_Auth" where
  "smtp_PlainAuth identity username password host =
     \<lparr>auth_identity = identity, auth_username = username, auth_password = password, auth_host = host\<rparr>"

text \<open>
  What this process has put on the wire, in order: the commands of the long-lived
  session of a \<^verbatim>\<open>MailHook\<close>, and whole messages handed over by \<^verbatim>\<open>smtp.SendMail\<close>.
\<close>

datatype smtp_event =
    MAIL string
  | RCPT string
  | DATA
  | Payload string
  | EndOfData
  | Sent string smtp_Auth string "string list" string

text \<open>
  The behaviour of the outside world, which mail.go cannot influence: whether a dial
  succeeds, what the address parser answers, and whether the server accepts a command,
  given everything sent before it. \<open>None\<close> is Go's nil error.
\<close>

record env =
  smtp_Dial_err :: "string \<Rightarrow> error option"
  net_DialTimeout_err :: "string \<Rightarrow> string \<Rightarrow> nat \<Rightarrow> error option"
  mail_ParseAddress :: "string \<Rightarrow> error + mail_Address"
  server_err :: "smtp_event list \<Rightarrow> smtp_event \<Rightarrow> error option"

text \<open>A connection is known by the address it was dialled to.\<close>

record smtp_Client =
  remote :: string

section \<open>mail.go: the two hooks\<close>

record MailHook =
  AppName :: string
  c :: smtp_Client

record MailAuthHook =
  AppName :: string
  Host :: string
  Port :: int
  From :: "mail_Address option"
  To :: "mail_Address option"
  Username :: string
  Password :: string

text \<open>
  A goroutine started by \<^verbatim>\<open>go func() { ... }()\<close> and not yet run: the closure of
  \<^verbatim>\<open>MailAuthHook.Fire\<close> with the two variables it captures, the hook and the message.
\<close>

datatype goroutine = SendMail_closure MailAuthHook string

text \<open>
  The state mail.go acts on: the connections this process holds open, what it has sent,
  and the goroutines it has started.
\<close>

record world =
  open_conns :: "string list"
  wire :: "smtp_event list"
  goroutines :: "goroutine list"

datatype panic = NilPointerDereference

definition send :: "env \<Rightarrow> world \<Rightarrow> smtp_event \<Rightarrow> error option \<times> world" where
  "send ev w cmd =
     (case server_err ev (wire w) cmd of
        Some err \<Rightarrow> (Some err, w)
      | None \<Rightarrow> (None, w\<lparr>wire := wire w @ [cmd]\<rparr>))"

text \<open>\<^verbatim>\<open>smtp.Dial\<close>: on success one more connection is open.\<close>

definition smtp_Dial :: "env \<Rightarrow> world \<Rightarrow> string \<Rightarrow> (error + smtp_Client) \<times> world" where
  "smtp_Dial ev w addr =
     (case smtp_Dial_err ev addr of
        Some err \<Rightarrow> (Inl err, w)
      | None \<Rightarrow> (Inr \<lparr>remote = addr\<rparr>, w\<lparr>open_conns := addr # open_conns w\<rparr>))"

definition net_DialTimeout :: "env \<Rightarrow> world \<Rightarrow> string \<Rightarrow> string \<Rightarrow> nat \<Rightarrow> (error + string) \<times> world" where
  "net_DialTimeout ev w network addr seconds =
     (case net_DialTimeout_err ev network addr seconds of
        Some err \<Rightarrow> (Inl err, w)
      | None \<Rightarrow> (Inr addr, w\<lparr>open_conns := addr # open_conns w\<rparr>))"

definition conn_Close :: "world \<Rightarrow> string \<Rightarrow> world" where
  "conn_Close w conn = w\<lparr>open_conns := remove1 conn (open_conns w)\<rparr>"

text \<open>\<^verbatim>\<open>NewMailHook\<close>: dial, validate both addresses, pin them on the session.\<close>

definition NewMailHook ::
  "env \<Rightarrow> world \<Rightarrow> string \<Rightarrow> string \<Rightarrow> int \<Rightarrow> string \<Rightarrow> string \<Rightarrow> (error + MailHook) \<times> world" where
  "NewMailHook ev w appname host port from to =
     (case smtp_Dial ev w (host @ '':'' @ strconv_Itoa port) of
        (Inl err, w) \<Rightarrow> (Inl err, w)
      | (Inr cl, w) \<Rightarrow>
          (case mail_ParseAddress ev from of
             Inl err \<Rightarrow> (Inl err, w)
           | Inr sender \<Rightarrow>
               (case mail_ParseAddress ev to of
                  Inl err \<Rightarrow> (Inl err, w)
                | Inr recipient \<Rightarrow>
                    (case send ev w (MAIL (Address sender)) of
                       (Some err, w) \<Rightarrow> (Inl err, w)
                     | (None, w) \<Rightarrow>
                         (case send ev w (RCPT (Address recipient)) of
                            (Some err, w) \<Rightarrow> (Inl err, w)
                          | (None, w) \<Rightarrow> (Inr \<lparr>MailHook.AppName = appname, c = cl\<rparr>, w))))))"

text \<open>
  \<^verbatim>\<open>NewMailAuthHook\<close>: probe the server, validate both addresses, store the arguments.
  The deferred \<^verbatim>\<open>conn.Close()\<close> runs on every path behind the successful dial.
\<close>

definition NewMailAuthHook ::
  "env \<Rightarrow> world \<Rightarrow> string \<Rightarrow> string \<Rightarrow> int \<Rightarrow> string \<Rightarrow> string \<Rightarrow> string \<Rightarrow> string
     \<Rightarrow> (error + MailAuthHook) \<times> world" where
  "NewMailAuthHook ev w appname host port from to username password =
     (case net_DialTimeout ev w ''tcp'' (host @ '':'' @ strconv_Itoa port) 3 of
        (Inl err, w) \<Rightarrow> (Inl err, w)
      | (Inr conn, w) \<Rightarrow>
          (let result =
                 (case mail_ParseAddress ev from of
                    Inl err \<Rightarrow> Inl err
                  | Inr sender \<Rightarrow>
                      (case mail_ParseAddress ev to of
                         Inl err \<Rightarrow> Inl err
                       | Inr receiver \<Rightarrow>
                           Inr \<lparr>AppName = appname, Host = host, Port = port, From = Some sender,
                                To = Some receiver, Username = username, Password = password\<rparr>))
           in (result, conn_Close w conn)))"

text \<open>
  \<^verbatim>\<open>MailHook.Fire\<close>: open the data channel, build the message with empty addresses, write
  it; the deferred \<^verbatim>\<open>wc.Close()\<close> ends the message on every path behind a successful
  \<^verbatim>\<open>Data()\<close>, and its own error is dropped.
\<close>

definition MailHook_Fire :: "env \<Rightarrow> runtime \<Rightarrow> MailHook \<Rightarrow> Entry \<Rightarrow> world \<Rightarrow> error option \<times> world" where
  "MailHook_Fire ev rt hook entry w =
     (case send ev w DATA of
        (Some err, w) \<Rightarrow> (Some err, w)
      | (None, w) \<Rightarrow>
          (let message = createMessage rt entry (MailHook.AppName hook) [] [];
               (err, w) = send ev w (Payload message);
               w_closed = snd (send ev w EndOfData)
           in (case err of
                 Some err \<Rightarrow> (Some err, w_closed)
               | None \<Rightarrow> (None, w_closed))))"

text \<open>
  \<^verbatim>\<open>MailAuthHook.Fire\<close>: build the message, start the goroutine, return nil. Reading
  \<^verbatim>\<open>hook.From.Address\<close> or \<^verbatim>\<open>hook.To.Address\<close> through a nil pointer panics.
\<close>

definition MailAuthHook_Fire ::
  "runtime \<Rightarrow> MailAuthHook \<Rightarrow> Entry \<Rightarrow> world \<Rightarrow> panic + (error option \<times> world)" where
  "MailAuthHook_Fire rt hook entry w =
     (case From hook of
        None \<Rightarrow> Inl NilPointerDereference
      | Some from \<Rightarrow>
          (case To hook of
             None \<Rightarrow> Inl NilPointerDereference
           | Some to \<Rightarrow>
               (let message = createMessage rt entry (MailAuthHook.AppName hook) (Address from) (Address to);
                    w = w\<lparr>goroutines := goroutines w @ [SendMail_closure hook message]\<rparr>
                in Inr (None, w))))"

text \<open>
  \<^verbatim>\<open>smtp.SendMail\<close> connects, authenticates, sends and closes in one call; it leaves no
  connection open.
\<close>

definition smtp_SendMail ::
  "env \<Rightarrow> world \<Rightarrow> string \<Rightarrow> smtp_Auth \<Rightarrow> string \<Rightarrow> string list \<Rightarrow> string \<Rightarrow> error option \<times> world" where
  "smtp_SendMail ev w addr a from to msg = send ev w (Sent addr a from to msg)"

text \<open>
  The body of the goroutine, run at some later time in whatever state the world is then.
  The result of \<^verbatim>\<open>smtp.SendMail\<close> is not assigned: the goroutine ends the same way whether
  the delivery worked or not.
\<close>

definition run_goroutine :: "env \<Rightarrow> goroutine \<Rightarrow> world \<Rightarrow> panic + world" where
  "run_goroutine ev g w =
     (case g of
        SendMail_closure hook message \<Rightarrow>
          (let auth = smtp_PlainAuth [] (Username hook) (Password hook) (Host hook) in
           case From hook of
             None \<Rightarrow> Inl NilPointerDereference
           | Some from \<Rightarrow>
               (case To hook of
                  None \<Rightarrow> Inl NilPointerDereference
                | Some to \<Rightarrow>
                    Inr (snd (smtp_SendMail ev w (Host hook @ '':'' @ strconv_Itoa (Port hook)) auth
                                (Address from) [Address to] message)))))"

text \<open>\<^verbatim>\<open>Levels\<close> of both hooks.\<close>

definition MailAuthHook_Levels :: "MailAuthHook \<Rightarrow> Level list" where
  "MailAuthHook_Levels hook = [PanicLevel, FatalLevel, ErrorLevel]"

definition MailHook_Levels :: "MailHook \<Rightarrow> Level list" where
  "MailHook_Levels hook = [PanicLevel, FatalLevel, ErrorLevel]"

section \<open>Reading a payload back\<close>

text \<open>
  How the far end of the session reads a payload. A line ends at a line feed, and a
  carriage return right before that line feed belongs to the line end: the data writer
  of net/smtp sends every line feed that has no carriage return before it as CR LF, and
  Go's own readers of mail (\<^verbatim>\<open>bufio\<close>, \<^verbatim>\<open>net/textproto\<close>, \<^verbatim>\<open>net/mail\<close>) end a line at LF and drop a
  CR before it. The header block is the run of lines before the first empty line, and a
  header's values are what follows \<open>name\<close>, a colon and a space on the lines of the
  header block that start so.
\<close>

fun read_lines :: "string \<Rightarrow> string list" where
  "read_lines [] = [[]]"
| "read_lines [x] = (if x = LF then [[], []] else [[x]])"
| "read_lines (x # y # s) =
     (if x = LF then [] # read_lines (y # s)
      else if x = CR \<and> y = LF then [] # read_lines s
      else (case read_lines (y # s) of
              [] \<Rightarrow> [[x]]
            | l # ls \<Rightarrow> (x # l) # ls))"

definition header_lines :: "string \<Rightarrow> string list" where
  "header_lines msg = takeWhile (\<lambda>l. l \<noteq> []) (read_lines msg)"

definition header_values :: "string \<Rightarrow> string \<Rightarrow> string list" where
  "header_values name msg =
     map (drop (length name + 2))
       (filter (\<lambda>l. take (length name + 2) l = name @ '': '') (header_lines msg))"

definition body_lines :: "string \<Rightarrow> string list" where
  "body_lines msg = drop 1 (dropWhile (\<lambda>l. l \<noteq> []) (read_lines msg))"

text \<open>The payloads written on data channels so far.\<close>

fun payloads :: "smtp_event list \<Rightarrow> string list" where
  "payloads [] = []"
| "payloads (Payload p # es) = p # payloads es"
| "payloads (e # es) = payloads es"

section \<open>Vocabulary for the stack-trace section\<close>

text \<open>
  The text one pass of the loop of \<^verbatim>\<open>createMessage\<close> appends for frame number \<open>i\<close> whose
  program counter \<open>pc\<close> resolved to \<open>fn\<close>, and the text for a run of frames numbered from
  \<open>i\<close> on.
\<close>

definition frame_entry :: "Func \<Rightarrow> nat \<Rightarrow> uintptr \<Rightarrow> string" where
  "frame_entry fn i pc =
     ''Frame '' @ fmt_02d (int i) @ '':'' @ CRLF
     @ [TAB] @ ''File: '' @ fst (Func_FileLine fn pc) @ CRLF
     @ [TAB] @ ''Function: '' @ Func_Name fn @ CRLF
     @ [TAB] @ ''Line: '' @ fmt_d (snd (Func_FileLine fn pc)) @ CRLF
     @ [TAB] @ ''PC/Entry: 0x'' @ fmt_08x pc @ ''/0x'' @ fmt_08x (Func_Entry fn) @ CRLF"

fun frames_text :: "runtime \<Rightarrow> nat \<Rightarrow> uintptr list \<Rightarrow> string" where
  "frames_text rt i [] = []"
| "frames_text rt i (pc # pcs) =
     (case FuncForPC rt pc of None \<Rightarrow> [] | Some fn \<Rightarrow> frame_entry fn i pc)
     @ frames_text rt (Suc i) pcs"

text \<open>
  The frames the trace reports: of the frames from frame 1 on (\<^verbatim>\<open>createMessage\<close> itself
  first), at most \<open>MAX_DEPTH + 1\<close>, cut at the first one that does not resolve.
\<close>

definition traced_frames :: "runtime \<Rightarrow> uintptr list" where
  "traced_frames rt =
     takeWhile (\<lambda>pc. FuncForPC rt pc \<noteq> None) (take (MAX_DEPTH + 1) (drop 1 (stack rt)))"

text \<open>
  The lines of a trace, as \<^verbatim>\<open>createMessage\<close> ends them: each with a CR LF pair.
\<close>

fun split_crlf :: "string \<Rightarrow> string list" where
  "split_crlf [] = [[]]"
| "split_crlf [x] = [[x]]"
| "split_crlf (x # y # s) =
     (if x = CR \<and> y = LF then [] # split_crlf s
      else (case split_crlf (y # s) of
              [] \<Rightarrow> [[x]]
            | l # ls \<Rightarrow> (x # l) # ls))"

text \<open>
  How a reader counts the frames of a trace: by its lines that start with \<open>Frame\<close> and
  a space. A program counter resolves cleanly when it resolves to a function whose name
  and file path contain no carriage return.
\<close>

definition frame_lines :: "string \<Rightarrow> string list" where
  "frame_lines t = filter (\<lambda>l. take 6 l = ''Frame '') (split_crlf t)"

definition resolves_cleanly :: "runtime \<Rightarrow> uintptr \<Rightarrow> bool" where
  "resolves_cleanly rt pc =
     (case FuncForPC rt pc of
        None \<Rightarrow> False
      | Some fn \<Rightarrow> CR \<notin> set (Func_Name fn) \<and> CR \<notin> set (fst (Func_FileLine fn pc)))"

section \<open>Concrete inputs\<close>

text \<open>The event of the scenario: an error at 2024-01-01T00:00:00Z with one field.\<close>

definition scenario_entry :: Entry where
  "scenario_entry =
     \<lparr>Data = [(''volume'', VString ''/data'')],
      Time = \<lparr>Year = 2024, Month = 1, Day = 1, Hour = 0, Minute = 0, Second = 0\<rparr>,
      Level = ErrorLevel,
      Message = ''disk full''\<rparr>"

text \<open>An event with a field that encoding/json cannot render.\<close>

definition unrenderable_entry :: Entry where
  "unrenderable_entry = scenario_entry\<lparr>Data := [(''done'', VChan)]\<rparr>"

text \<open>
  A symbol table with four functions, and four stacks over it: a goroutine with no
  frame to report, a call of \<^verbatim>\<open>MailAuthHook.Fire\<close> from a shallow program, a call from a
  recursion 150 frames deep, and a stack whose fourth frame does not resolve, with a
  resolvable frame behind it.
\<close>

definition example_funcs :: "uintptr \<Rightarrow> Func option" where
  "example_funcs pc =
     (if pc = 0x1000 then
        Some \<lparr>Func_Name = ''runtime.Callers'', Func_Entry = 0x0F00,
              Func_FileLine = (\<lambda>p. (''/go/src/runtime/extern.go'', 250))\<rparr>
      else if pc = 0x2000 then
        Some \<lparr>Func_Name = ''logrus_mail.createMessage'', Func_Entry = 0x1F00,
              Func_FileLine = (\<lambda>p. (''/src/mail.go'', 161))\<rparr>
      else if pc = 0x3000 then
        Some \<lparr>Func_Name = ''logrus_mail.(*MailAuthHook).Fire'', Func_Entry = 0x2F00,
              Func_FileLine = (\<lambda>p. (''/src/mail.go'', 117))\<rparr>
      else if pc = 0x4000 then
        Some \<lparr>Func_Name = ''main.descend'', Func_Entry = 0x3F00,
              Func_FileLine = (\<lambda>p. (''/src/main.go'', 12))\<rparr>
      else None)"

definition empty_runtime :: runtime where
  "empty_runtime = \<lparr>stack = [], FuncForPC = example_funcs\<rparr>"

definition small_runtime :: runtime where
  "small_runtime = \<lparr>stack = [0x1000, 0x2000, 0x3000], FuncForPC = example_funcs\<rparr>"

definition deep_runtime :: runtime where
  "deep_runtime = \<lparr>stack = [0x1000, 0x2000, 0x3000] @ replicate 150 0x4000, FuncForPC = example_funcs\<rparr>"

definition broken_runtime :: runtime where
  "broken_runtime = \<lparr>stack = [0x1000, 0x2000, 0x3000, 0x9999, 0x4000], FuncForPC = example_funcs\<rparr>"

text \<open>
  A world in which every dial succeeds, the parser accepts exactly two addresses, and
  the server accepts every command; the same world with a server that rejects the
  sender declaration; and the same world with a server that rejects everything.
\<close>

definition example_parser :: "string \<Rightarrow> error + mail_Address" where
  "example_parser s =
     (if s = ''alice@example.com'' then Inr \<lparr>Name = [], Address = ''alice@example.com''\<rparr>
      else if s = ''Ops <ops@example.com>'' then Inr \<lparr>Name = ''Ops'', Address = ''ops@example.com''\<rparr>
      else Inl AddressFormatError)"

definition friendly_env :: env where
  "friendly_env =
     \<lparr>smtp_Dial_err = (\<lambda>addr. None),
      net_DialTimeout_err = (\<lambda>network addr seconds. None),
      mail_ParseAddress = example_parser,
      server_err = (\<lambda>history cmd. None)\<rparr>"

definition rejecting_env :: env where
  "rejecting_env =
     friendly_env\<lparr>server_err := (\<lambda>history cmd. case cmd of MAIL a \<Rightarrow> Some ProtocolError | _ \<Rightarrow> None)\<rparr>"

definition failing_env :: env where
  "failing_env = friendly_env\<lparr>server_err := (\<lambda>history cmd. Some ProtocolError)\<rparr>"

definition idle_world :: world where
  "idle_world = \<lparr>open_conns = [], wire = [], goroutines = []\<rparr>"

definition example_auth_hook :: MailAuthHook where
  "example_auth_hook =
     \<lparr>AppName = ''svc'', Host = ''mail.example.com'', Port = 587,
      From = Some \<lparr>Name = [], Address = ''alice@example.com''\<rparr>,
      To = Some \<lparr>Name = ''Ops'', Address = ''ops@example.com''\<rparr>,
      Username = ''alice'', Password = ''secret''\<rparr>"

definition example_hook :: MailHook where
  "example_hook = \<lparr>MailHook.AppName = ''svc'', c = \<lparr>remote = ''mail.example.com:25''\<rparr>\<rparr>"

text \<open>
  The scenario event with a second field, its fields enumerated in two different
  orders, as two iterations over the same Go map may give them.
\<close>

definition reordered_entry :: Entry where
  "reordered_entry =
     scenario_entry\<lparr>Data := [(''zone'', VString ''eu''), (''volume'', VString ''/data'')]\<rparr>"

definition ordered_entry :: Entry where
  "ordered_entry =
     scenario_entry\<lparr>Data := [(''volume'', VString ''/data''), (''zone'', VString ''eu'')]\<rparr>"

section \<open>Facts about the building blocks\<close>

declare trace_loop.simps [simp del]

declare trace_loop_part_000.simps [simp del]

lemma split_crlf_line: "CR \<notin> set s \<Longrightarrow> split_crlf (s @ CR # LF # r) = s # split_crlf r"
proof (induction s)
  case Nil
  then show ?case by simp
next
  case (Cons x s)
  obtain y t where yt: "s @ CR # LF # r = y # t" by (cases "s @ CR # LF # r") auto
  from Cons.prems have "x \<noteq> CR" "CR \<notin> set s" by auto
  with Cons.IH yt show ?case by simp
qed

lemma split_crlf_CRLF: "CR \<notin> set s \<Longrightarrow> split_crlf (s @ CRLF @ r) = s # split_crlf r"
  by (simp add: CRLF_def split_crlf_line)

lemma read_lines_line: "LF \<notin> set s \<Longrightarrow> read_lines (s @ CR # LF # r) = s # read_lines r"
proof (induction s)
  case Nil
  then show ?case by (simp add: CR_def LF_def)
next
  case (Cons x s)
  obtain y t where yt: "s @ CR # LF # r = y # t" by (cases "s @ CR # LF # r") auto
  from Cons.prems have x: "x \<noteq> LF" and s: "LF \<notin> set s" by auto
  from yt s have y: "y \<noteq> LF" by (cases s) (auto simp add: CR_def LF_def)
  from Cons.IH [OF s] yt x y show ?case by simp
qed

lemma read_lines_CRLF: "LF \<notin> set s \<Longrightarrow> read_lines (s @ CRLF @ r) = s # read_lines r"
  by (simp add: CRLF_def read_lines_line)

lemma read_lines_LF:
  "LF \<notin> set s \<Longrightarrow> CR \<notin> set s \<Longrightarrow> read_lines (s @ LF # r) = s # read_lines r"
proof (induction s)
  case Nil
  then show ?case by (cases r) simp_all
next
  case (Cons x s)
  obtain y t where yt: "s @ LF # r = y # t" by (cases "s @ LF # r") auto
  from Cons.prems have x: "x \<noteq> LF" "x \<noteq> CR" and s: "LF \<notin> set s" "CR \<notin> set s" by auto
  from Cons.IH [OF s] yt x show ?case by simp
qed

lemma CR_notin_Level_String: "CR \<notin> set (Level_String l)"
  by (cases l) (simp_all add: CR_def)

lemma LF_notin_Level_String: "LF \<notin> set (Level_String l)"
  by (cases l) (simp_all add: LF_def)

lemma createMessage_eq:
  "createMessage rt entry appname from to =
     (if from \<noteq> [] then ''From: '' @ from @ CRLF else [])
     @ (if to \<noteq> [] then ''To: '' @ to @ CRLF else [])
     @ ''Subject: '' @ appname @ '' - '' @ Level_String (Level entry) @ CRLF @ CRLF
     @ Time_Format (Time entry) @ '' - '' @ Message entry @ CRLF @ CRLF
     @ stack_trace rt @ CRLF @ CRLF @ ''Data:'' @ CRLF @ CRLF
     @ (case json_MarshalIndent (VMap (Data entry)) [] [TAB] of Inl err \<Rightarrow> [] | Inr b \<Rightarrow> b)
     @ CRLF @ CRLF"
  by (simp add: createMessage_def Let_def)

lemma header_lines_createMessage:
  assumes "LF \<notin> set appname" "LF \<notin> set from" "LF \<notin> set to"
  shows "header_lines (createMessage rt entry appname from to) =
     (if from \<noteq> [] then [''From: '' @ from] else [])
     @ (if to \<noteq> [] then [''To: '' @ to] else [])
     @ [''Subject: '' @ appname @ '' - '' @ Level_String (Level entry)]"
proof -
  let ?subject = "''Subject: '' @ appname @ '' - '' @ Level_String (Level entry)"
  let ?rest = "Time_Format (Time entry) @ '' - '' @ Message entry @ CRLF @ CRLF
     @ stack_trace rt @ CRLF @ CRLF @ ''Data:'' @ CRLF @ CRLF
     @ (case json_MarshalIndent (VMap (Data entry)) [] [TAB] of Inl err \<Rightarrow> [] | Inr b \<Rightarrow> b)
     @ CRLF @ CRLF"
  have s: "LF \<notin> set ?subject"
    using assms(1) LF_notin_Level_String by (simp add: LF_def)
  have f: "LF \<notin> set (''From: '' @ from)" using assms(2) by (simp add: LF_def)
  have t: "LF \<notin> set (''To: '' @ to)" using assms(3) by (simp add: LF_def)
  have tail: "read_lines (?subject @ CRLF @ CRLF @ ?rest) = ?subject # [] # read_lines ?rest"
    using read_lines_CRLF [OF s, of "CRLF @ ?rest"] read_lines_CRLF [of "[]" ?rest] by simp
  have m: "createMessage rt entry appname from to =
     (if from \<noteq> [] then (''From: '' @ from) @ CRLF @ [] else [])
     @ ((if to \<noteq> [] then (''To: '' @ to) @ CRLF @ [] else [])
     @ (?subject @ CRLF @ CRLF @ ?rest))"
    by (simp add: createMessage_eq)
  show ?thesis
    unfolding header_lines_def m
    using read_lines_CRLF [OF f] read_lines_CRLF [OF t] tail
    by (cases "from = []"; cases "to = []") simp_all
qed

lemma trace_loop_eq:
  "depth \<le> length callers \<Longrightarrow>
   trace_loop rt callers depth i trace =
     trace @ frames_text rt i (takeWhile (\<lambda>pc. FuncForPC rt pc \<noteq> None) (drop i (take depth callers)))"
proof (induction rt callers depth i trace rule: trace_loop.induct)
  case (1 rt callers depth i trace)
  show ?case
  proof (cases "i < depth")
    case False
    then show ?thesis by (subst trace_loop.simps) simp
  next
    case True
    with "1.prems" have d: "drop i (take depth callers) = callers ! i # drop (Suc i) (take depth callers)"
      by (simp add: Cons_nth_drop_Suc [symmetric])
    show ?thesis
    proof (cases "FuncForPC rt (callers ! i)")
      case None
      with True d show ?thesis by (subst trace_loop.simps) simp
    next
      case (Some fn)
      obtain src_file src_line where fl: "Func_FileLine fn (callers ! i) = (src_file, src_line)"
        by (cases "Func_FileLine fn (callers ! i)")
      have ih: "trace_loop rt callers depth (Suc i) (trace @ frame_entry fn i (callers ! i)) =
          (trace @ frame_entry fn i (callers ! i))
          @ frames_text rt (Suc i) (takeWhile (\<lambda>pc. FuncForPC rt pc \<noteq> None) (drop (Suc i) (take depth callers)))"
        using "1.IH" [OF True refl Some refl refl fl [symmetric] refl refl refl refl refl refl "1.prems"] fl
        by (simp add: frame_entry_def)
      have step: "trace_loop rt callers depth i trace =
          trace_loop rt callers depth (Suc i) (trace @ frame_entry fn i (callers ! i))"
        using True Some fl by (subst trace_loop.simps) (simp add: frame_entry_def)
      show ?thesis
        unfolding step ih using d Some by simp
    qed
  qed
qed

lemma take_length_append: "take (length xs) (xs @ ys) = xs"
  by simp

lemma stack_trace_eq: "stack_trace rt = frames_text rt 0 (traced_frames rt)"
proof -
  let ?found = "take (MAX_DEPTH + 1) (drop 1 (stack rt))"
  let ?callers = "?found @ drop (length ?found) (replicate (MAX_DEPTH + 1) (0 :: uintptr))"
  have "stack_trace rt = trace_loop rt ?callers (length ?found) 0 []"
    by (simp add: stack_trace_def runtime_Callers_def Let_def)
  also have "\<dots> = [] @ frames_text rt 0 (takeWhile (\<lambda>pc. FuncForPC rt pc \<noteq> None) (drop 0 (take (length ?found) ?callers)))"
    by (rule trace_loop_eq) simp
  also have "\<dots> = frames_text rt 0 (traced_frames rt)"
    by (simp only: traced_frames_def take_length_append drop_0 append_Nil)
  finally show ?thesis .
qed

lemma stack_trace_empty_runtime: "stack_trace empty_runtime = []"
  by (simp add: stack_trace_eq traced_frames_def empty_runtime_def)

lemma scenario_fields:
  "json_MarshalIndent (VMap (Data scenario_entry)) [] [TAB] =
     Inr (''{'' @ [LF, TAB] @ [CHR 0x22] @ ''volume'' @ [CHR 0x22] @ '': ''
          @ [CHR 0x22] @ ''/data'' @ [CHR 0x22] @ [LF] @ ''}'')"
  by (simp add: scenario_entry_def json_MarshalIndent_def json_newline_def json_string_def
      json_escape_def CR_def LF_def TAB_def)

lemma scenario_time: "Time_Format (Time scenario_entry) = ''20240101 00:00:00''"
  by code_simp

lemma unrenderable_fields:
  "json_MarshalIndent (VMap (Data unrenderable_entry)) [] [TAB] = Inl RenderError"
  by (simp add: unrenderable_entry_def scenario_entry_def json_MarshalIndent_def)

lemma header_lines_two:
  assumes "LF \<notin> set a" "LF \<notin> set b" "a \<noteq> []" "b \<noteq> []"
  shows "header_lines (a @ CRLF @ b @ CRLF @ CRLF @ r) = [a, b]"
  using read_lines_CRLF [OF assms(1), of "b @ CRLF @ CRLF @ r"]
    read_lines_CRLF [OF assms(2), of "CRLF @ r"] read_lines_CRLF [of "[]" r] assms(3,4)
  by (simp add: header_lines_def)

lemma body_lines_createMessage:
  assumes "LF \<notin> set appname"
  shows "body_lines (createMessage rt entry appname [] []) =
     read_lines (Time_Format (Time entry) @ '' - '' @ Message entry @ CRLF @ CRLF
       @ stack_trace rt @ CRLF @ CRLF @ ''Data:'' @ CRLF @ CRLF
       @ (case json_MarshalIndent (VMap (Data entry)) [] [TAB] of Inl err \<Rightarrow> [] | Inr b \<Rightarrow> b)
       @ CRLF @ CRLF)"
proof -
  let ?subject = "''Subject: '' @ appname @ '' - '' @ Level_String (Level entry)"
  let ?rest = "Time_Format (Time entry) @ '' - '' @ Message entry @ CRLF @ CRLF
     @ stack_trace rt @ CRLF @ CRLF @ ''Data:'' @ CRLF @ CRLF
     @ (case json_MarshalIndent (VMap (Data entry)) [] [TAB] of Inl err \<Rightarrow> [] | Inr b \<Rightarrow> b)
     @ CRLF @ CRLF"
  have s: "LF \<notin> set ?subject"
    using assms LF_notin_Level_String by (simp add: LF_def)
  have m: "createMessage rt entry appname [] [] = ?subject @ CRLF @ CRLF @ ?rest"
    by (simp add: createMessage_eq)
  have "read_lines (?subject @ CRLF @ CRLF @ ?rest) = ?subject # [] # read_lines ?rest"
    using read_lines_CRLF [OF s, of "CRLF @ ?rest"] read_lines_CRLF [of "[]" ?rest] by simp
  then show ?thesis unfolding body_lines_def m by simp
qed

lemma MailHook_Fire_result:
  "fst (MailHook_Fire ev rt mh entry w) =
     (case server_err ev (wire w) DATA of
        Some e \<Rightarrow> Some e
      | None \<Rightarrow> server_err ev (wire w @ [DATA]) (Payload (createMessage rt entry (MailHook.AppName mh) [] [])))"
  by (simp add: MailHook_Fire_def send_def Let_def split: option.splits prod.splits)

lemma payloads_append: "payloads (xs @ ys) = payloads xs @ payloads ys"
  by (induction xs rule: payloads.induct) simp_all

lemma MailHook_Fire_wire:
  assumes "server_err ev (wire w) DATA = None"
    and "server_err ev (wire w @ [DATA]) (Payload (createMessage rt entry (MailHook.AppName hook) [] [])) = None"
  shows "wire (snd (MailHook_Fire ev rt hook entry w)) =
     wire w @ [DATA, Payload (createMessage rt entry (MailHook.AppName hook) [] [])]
     @ (case server_err ev (wire w @ [DATA, Payload (createMessage rt entry (MailHook.AppName hook) [] [])]) EndOfData of
          None \<Rightarrow> [EndOfData] | Some e \<Rightarrow> [])"
  using assms by (simp add: MailHook_Fire_def send_def Let_def split: option.splits)

lemma NewMailHook_example:
  "NewMailHook friendly_env idle_world ''svc'' ''mail.example.com'' 25 ''alice@example.com'' ''Ops <ops@example.com>''
     = (Inr example_hook,
        \<lparr>open_conns = [''mail.example.com:25''], wire = [MAIL ''alice@example.com'', RCPT ''ops@example.com''],
         goroutines = []\<rparr>)"
  by (simp add: NewMailHook_def smtp_Dial_def send_def friendly_env_def idle_world_def example_parser_def
      example_hook_def strconv_Itoa_def fmt_d_def digit_char_def)

lemma friendly_accepts: "server_err friendly_env h cmd = None"
  by (simp add: friendly_env_def)

lemma example_hook_AppName: "MailHook.AppName example_hook = ''svc''"
  by (simp add: example_hook_def)

lemma scenario_level: "Level_String (Level scenario_entry) = ''error''"
  by (simp add: scenario_entry_def)

lemma example_auth_hook_fields:
  "From example_auth_hook = Some \<lparr>Name = [], Address = ''alice@example.com''\<rparr>"
  "To example_auth_hook = Some \<lparr>Name = ''Ops'', Address = ''ops@example.com''\<rparr>"
  "MailAuthHook.AppName example_auth_hook = ''svc''"
  "Host example_auth_hook = ''mail.example.com''"
  "Port example_auth_hook = 587"
  "Username example_auth_hook = ''alice''"
  "Password example_auth_hook = ''secret''"
  by (simp_all add: example_auth_hook_def)

lemma failing_rejects: "server_err failing_env h cmd = Some ProtocolError"
  by (simp add: failing_env_def friendly_env_def)

lemma NewMailAuthHook_example:
  "NewMailAuthHook friendly_env idle_world ''svc'' ''mail.example.com'' 587 ''alice@example.com''
      ''Ops <ops@example.com>'' ''alice'' ''secret'' = (Inr example_auth_hook, idle_world)"
  by (simp add: NewMailAuthHook_def net_DialTimeout_def conn_Close_def friendly_env_def idle_world_def
      example_parser_def example_auth_hook_def)

lemma NewMailAuthHook_result:
  assumes "net_DialTimeout_err ev ''tcp'' (host @ '':'' @ strconv_Itoa port) 3 = None"
  shows "NewMailAuthHook ev w appname host port from to username password =
     ((case mail_ParseAddress ev from of
         Inl err \<Rightarrow> Inl err
       | Inr sender \<Rightarrow>
           (case mail_ParseAddress ev to of
              Inl err \<Rightarrow> Inl err
            | Inr receiver \<Rightarrow>
                Inr \<lparr>AppName = appname, Host = host, Port = port, From = Some sender,
                     To = Some receiver, Username = username, Password = password\<rparr>)),
      w)"
proof -
  have "w\<lparr>open_conns := remove1 (host @ '':'' @ strconv_Itoa port) ((host @ '':'' @ strconv_Itoa port) # open_conns w)\<rparr> = w"
    by simp
  then show ?thesis
    using assms by (simp add: NewMailAuthHook_def net_DialTimeout_def conn_Close_def Let_def)
qed

lemma NewMailHook_result:
  assumes "smtp_Dial_err ev (host @ '':'' @ strconv_Itoa port) = None"
  shows "fst (NewMailHook ev w appname host port from to) =
     (case mail_ParseAddress ev from of
        Inl err \<Rightarrow> Inl err
      | Inr sender \<Rightarrow>
          (case mail_ParseAddress ev to of
             Inl err \<Rightarrow> Inl err
           | Inr recipient \<Rightarrow>
               (case server_err ev (wire w) (MAIL (Address sender)) of
                  Some err \<Rightarrow> Inl err
                | None \<Rightarrow>
                    (case server_err ev (wire w @ [MAIL (Address sender)]) (RCPT (Address recipient)) of
                       Some err \<Rightarrow> Inl err
                     | None \<Rightarrow> Inr \<lparr>MailHook.AppName = appname,
                                       c = \<lparr>remote = host @ '':'' @ strconv_Itoa port\<rparr>\<rparr>))))"
  using assms
  by (simp add: NewMailHook_def smtp_Dial_def send_def split: sum.splits option.splits)

lemma friendly_dials:
  "net_DialTimeout_err friendly_env network addr seconds = None"
  "smtp_Dial_err friendly_env addr = None"
  by (simp_all add: friendly_env_def)

lemma friendly_parser:
  "mail_ParseAddress friendly_env ''not an address'' = Inl AddressFormatError"
  "mail_ParseAddress friendly_env ''alice@example.com'' = Inr \<lparr>Name = [], Address = ''alice@example.com''\<rparr>"
  "mail_ParseAddress friendly_env ''Ops <ops@example.com>'' = Inr \<lparr>Name = ''Ops'', Address = ''ops@example.com''\<rparr>"
  by (simp_all add: friendly_env_def example_parser_def)

lemma sort_key_same_map:
  assumes "distinct (map fst xs)" "distinct (map fst ys)" "map_of xs = map_of ys"
  shows "sort_key fst xs = sort_key fst ys"
proof -
  from assms have s: "set xs = set ys"
    by (simp add: map_of_inject_set)
  from assms(1) have i: "inj_on fst (set xs)" and dx: "distinct xs"
    by (simp_all add: distinct_map)
  from assms(2) have dy: "distinct ys"
    by (simp add: distinct_map)
  show ?thesis
  proof (rule map_sorted_distinct_set_unique [where f = fst])
    show "inj_on fst (set (sort_key fst xs) \<union> set (sort_key fst ys))"
      using i s by simp
    show "sorted (map fst (sort_key fst xs))" "sorted (map fst (sort_key fst ys))"
      by simp_all
    show "distinct (map fst (sort_key fst xs))"
      using i dx by (simp add: distinct_map)
    show "distinct (map fst (sort_key fst ys))"
      using i s dy by (simp add: distinct_map)
    show "set (sort_key fst xs) = set (sort_key fst ys)"
      using s by simp
  qed
qed

lemma json_MarshalIndent_same_map:
  assumes "distinct (map fst xs)" "distinct (map fst ys)" "map_of xs = map_of ys"
  shows "json_MarshalIndent (VMap xs) prefix indent = json_MarshalIndent (VMap ys) prefix indent"
proof -
  from assms have "set xs = set ys"
    by (simp add: map_of_inject_set)
  then have e: "xs = [] \<longleftrightarrow> ys = []"
    by (metis set_empty)
  show ?thesis
    using e sort_key_same_map [OF assms] by (simp add: json_MarshalIndent_def)
qed

lemma digit_char_not_CR: "digit_char n \<noteq> CR"
proof -
  have "digit_char n \<in> set ''0123456789abcdef''"
    unfolding digit_char_def by (rule nth_mem) simp
  then show ?thesis by (auto simp add: CR_def)
qed

lemma CR_notin_dec_digits: "CR \<notin> set (dec_digits n)"
proof (induction n rule: dec_digits.induct)
  case (1 n)
  show ?case
  proof (cases "n < 10")
    case True
    then show ?thesis using digit_char_not_CR [of n] by (subst dec_digits.simps) auto
  next
    case False
    then show ?thesis using 1 digit_char_not_CR [of "n mod 10"] by (subst dec_digits.simps) auto
  qed
qed

lemma CR_notin_hex_digits: "CR \<notin> set (hex_digits n)"
proof (induction n rule: hex_digits.induct)
  case (1 n)
  show ?case
  proof (cases "n < 16")
    case True
    then show ?thesis using digit_char_not_CR [of n] by (subst hex_digits.simps) auto
  next
    case False
    then show ?thesis using 1 digit_char_not_CR [of "n mod 16"] by (subst hex_digits.simps) auto
  qed
qed

lemma CR_notin_pad0: "CR \<notin> set s \<Longrightarrow> CR \<notin> set (pad0 w s)"
  by (auto simp add: pad0_def CR_def)

lemma CR_notin_fmt:
  "CR \<notin> set (fmt_02d i)" "CR \<notin> set (fmt_d i)" "CR \<notin> set (fmt_08x p)"
  using CR_notin_pad0 [OF CR_notin_dec_digits] CR_notin_pad0 [OF CR_notin_hex_digits] CR_notin_dec_digits
  by (auto simp add: fmt_02d_def fmt_d_def fmt_08x_def CR_def)

lemma split_crlf_frame_entry:
  assumes "CR \<notin> set (Func_Name fn)" and "CR \<notin> set (fst (Func_FileLine fn pc))"
  shows "split_crlf (frame_entry fn i pc @ r) =
     [''Frame '' @ fmt_02d (int i) @ '':'',
      [TAB] @ ''File: '' @ fst (Func_FileLine fn pc),
      [TAB] @ ''Function: '' @ Func_Name fn,
      [TAB] @ ''Line: '' @ fmt_d (snd (Func_FileLine fn pc)),
      [TAB] @ ''PC/Entry: 0x'' @ fmt_08x pc @ ''/0x'' @ fmt_08x (Func_Entry fn)]
     @ split_crlf r"
proof -
  let ?l1 = "''Frame '' @ fmt_02d (int i) @ '':''"
  let ?l2 = "[TAB] @ ''File: '' @ fst (Func_FileLine fn pc)"
  let ?l3 = "[TAB] @ ''Function: '' @ Func_Name fn"
  let ?l4 = "[TAB] @ ''Line: '' @ fmt_d (snd (Func_FileLine fn pc))"
  let ?l5 = "[TAB] @ ''PC/Entry: 0x'' @ fmt_08x pc @ ''/0x'' @ fmt_08x (Func_Entry fn)"
  have c1: "CR \<notin> set ?l1" using CR_notin_fmt(1) by (simp add: CR_def)
  have c2: "CR \<notin> set ?l2" using assms(2) by (simp add: CR_def TAB_def)
  have c3: "CR \<notin> set ?l3" using assms(1) by (simp add: CR_def TAB_def)
  have c4: "CR \<notin> set ?l4" using CR_notin_fmt(2) by (simp add: CR_def TAB_def)
  have c5: "CR \<notin> set ?l5" using CR_notin_fmt(3) by (simp add: CR_def TAB_def)
  have e: "frame_entry fn i pc @ r =
      ?l1 @ CRLF @ (?l2 @ CRLF @ (?l3 @ CRLF @ (?l4 @ CRLF @ (?l5 @ CRLF @ r))))"
    by (simp add: frame_entry_def)
  have s1: "split_crlf (?l1 @ CRLF @ (?l2 @ CRLF @ (?l3 @ CRLF @ (?l4 @ CRLF @ (?l5 @ CRLF @ r))))) =
      ?l1 # split_crlf (?l2 @ CRLF @ (?l3 @ CRLF @ (?l4 @ CRLF @ (?l5 @ CRLF @ r))))"
    by (rule split_crlf_CRLF [OF c1])
  have s2: "split_crlf (?l2 @ CRLF @ (?l3 @ CRLF @ (?l4 @ CRLF @ (?l5 @ CRLF @ r)))) =
      ?l2 # split_crlf (?l3 @ CRLF @ (?l4 @ CRLF @ (?l5 @ CRLF @ r)))"
    by (rule split_crlf_CRLF [OF c2])
  have s3: "split_crlf (?l3 @ CRLF @ (?l4 @ CRLF @ (?l5 @ CRLF @ r))) =
      ?l3 # split_crlf (?l4 @ CRLF @ (?l5 @ CRLF @ r))"
    by (rule split_crlf_CRLF [OF c3])
  have s4: "split_crlf (?l4 @ CRLF @ (?l5 @ CRLF @ r)) = ?l4 # split_crlf (?l5 @ CRLF @ r)"
    by (rule split_crlf_CRLF [OF c4])
  have s5: "split_crlf (?l5 @ CRLF @ r) = ?l5 # split_crlf r"
    by (rule split_crlf_CRLF [OF c5])
  have "split_crlf (frame_entry fn i pc @ r) = ?l1 # ?l2 # ?l3 # ?l4 # ?l5 # split_crlf r"
    by (simp only: e s1 s2 s3 s4 s5)
  then show ?thesis by simp
qed

lemma frame_lines_frame_entry:
  assumes "CR \<notin> set (Func_Name fn)" and "CR \<notin> set (fst (Func_FileLine fn pc))"
  shows "frame_lines (frame_entry fn i pc @ r) = (''Frame '' @ fmt_02d (int i) @ '':'') # frame_lines r"
  unfolding frame_lines_def split_crlf_frame_entry [OF assms]
  by (simp add: TAB_def)

lemma frame_lines_frames_text:
  assumes "list_all (resolves_cleanly rt) pcs"
  shows "frame_lines (frames_text rt i pcs @ r) =
     map (\<lambda>k. ''Frame '' @ fmt_02d (int k) @ '':'') [i..<i + length pcs] @ frame_lines r"
  using assms
proof (induction pcs arbitrary: i)
  case Nil
  then show ?case by simp
next
  case (Cons pc pcs)
  from Cons.prems obtain fn where fn: "FuncForPC rt pc = Some fn"
    and cl: "CR \<notin> set (Func_Name fn)" "CR \<notin> set (fst (Func_FileLine fn pc))"
    by (auto simp add: resolves_cleanly_def split: option.splits)
  from Cons.prems have rest: "list_all (resolves_cleanly rt) pcs" by simp
  have "frame_lines (frames_text rt i (pc # pcs) @ r) =
      frame_lines (frame_entry fn i pc @ (frames_text rt (Suc i) pcs @ r))"
    by (simp add: fn)
  also have "\<dots> = (''Frame '' @ fmt_02d (int i) @ '':'') # frame_lines (frames_text rt (Suc i) pcs @ r)"
    by (rule frame_lines_frame_entry [OF cl])
  also have "\<dots> = (''Frame '' @ fmt_02d (int i) @ '':'')
      # map (\<lambda>k. ''Frame '' @ fmt_02d (int k) @ '':'') [Suc i..<Suc i + length pcs] @ frame_lines r"
    by (simp only: Cons.IH [OF rest] append_Cons)
  also have "\<dots> = map (\<lambda>k. ''Frame '' @ fmt_02d (int k) @ '':'') (i # [Suc i..<Suc i + length pcs]) @ frame_lines r"
    by (simp only: list.map append_Cons)
  also have "i # [Suc i..<Suc i + length pcs] = [i..<i + length (pc # pcs)]"
    using upt_conv_Cons [of i "i + length (pc # pcs)"] by simp
  finally show ?case .
qed

lemma frame_lines_Nil: "frame_lines [] = []"
  by (simp add: frame_lines_def)

lemma frame_lines_stack_trace:
  assumes "list_all (resolves_cleanly rt) (traced_frames rt)"
  shows "frame_lines (stack_trace rt) =
     map (\<lambda>k. ''Frame '' @ fmt_02d (int k) @ '':'') [0..<length (traced_frames rt)]"
  using frame_lines_frames_text [OF assms, of 0 "[]"]
  by (simp add: stack_trace_eq frame_lines_Nil)

lemma example_funcs_values:
  "example_funcs 0x2000 = Some \<lparr>Func_Name = ''logrus_mail.createMessage'', Func_Entry = 0x1F00,
      Func_FileLine = (\<lambda>p. (''/src/mail.go'', 161))\<rparr>"
  "example_funcs 0x3000 = Some \<lparr>Func_Name = ''logrus_mail.(*MailAuthHook).Fire'', Func_Entry = 0x2F00,
      Func_FileLine = (\<lambda>p. (''/src/mail.go'', 117))\<rparr>"
  "example_funcs 0x4000 = Some \<lparr>Func_Name = ''main.descend'', Func_Entry = 0x3F00,
      Func_FileLine = (\<lambda>p. (''/src/main.go'', 12))\<rparr>"
  "example_funcs 0x9999 = None"
  by (simp_all add: example_funcs_def)

lemma example_funcs_clean:
  "resolves_cleanly \<lparr>stack = s, FuncForPC = example_funcs\<rparr> 0x2000"
  "resolves_cleanly \<lparr>stack = s, FuncForPC = example_funcs\<rparr> 0x3000"
  "resolves_cleanly \<lparr>stack = s, FuncForPC = example_funcs\<rparr> 0x4000"
  by (simp_all add: resolves_cleanly_def example_funcs_values CR_def)

lemma traced_frames_broken_runtime: "traced_frames broken_runtime = [0x2000, 0x3000]"
  by (simp add: traced_frames_def broken_runtime_def MAX_DEPTH_def example_funcs_values)

lemma traced_frames_deep_runtime:
  "traced_frames deep_runtime = 0x2000 # 0x3000 # replicate 99 0x4000"
  by (simp add: traced_frames_def deep_runtime_def MAX_DEPTH_def example_funcs_values)

lemma fmt_02d_values: "fmt_02d 0 = ''00''" "fmt_02d 1 = ''01''" "fmt_02d 100 = ''100''"
  by (simp_all add: fmt_02d_def pad0_def digit_char_def)

section \<open>Applicable severities\<close>

text \<open>
  C8. For both hook variants, \<^verbatim>\<open>Levels\<close> returns exactly the severities Panic, Fatal and
  Error: each of the three is in the returned list, and no other severity is.
\<close>

theorem Levels_exactly_Panic_Fatal_Error:
  "set (MailHook_Levels mh) = {PanicLevel, FatalLevel, ErrorLevel}
   \<and> set (MailAuthHook_Levels ah) = {PanicLevel, FatalLevel, ErrorLevel}
   \<and> WarnLevel \<notin> set (MailHook_Levels mh) \<and> InfoLevel \<notin> set (MailHook_Levels mh)
   \<and> DebugLevel \<notin> set (MailHook_Levels mh)
   \<and> WarnLevel \<notin> set (MailAuthHook_Levels ah) \<and> InfoLevel \<notin> set (MailAuthHook_Levels ah)
   \<and> DebugLevel \<notin> set (MailAuthHook_Levels ah)"
  by (simp add: MailHook_Levels_def MailAuthHook_Levels_def)

section \<open>Headers of the rendered message\<close>

text \<open>
  C5, as amended. For every entry, and every appName, fromAddress and toAddress that
  contain no line break (neither a carriage return nor a line feed), the header block of
  the rendered message has a From: header iff fromAddress is non-empty (then exactly one,
  with that value), a To: header iff toAddress is non-empty (then exactly one, with that
  value), and exactly one Subject: header, whose value is the appName, \<open>" - "\<close> and the
  severity name; the header block has no other line.
\<close>

theorem createMessage_headers:
  assumes "CR \<notin> set appname" and "LF \<notin> set appname"
    and "CR \<notin> set from" and "LF \<notin> set from"
    and "CR \<notin> set to" and "LF \<notin> set to"
  shows "header_values ''From'' (createMessage rt entry appname from to) = (if from = [] then [] else [from])
    \<and> header_values ''To'' (createMessage rt entry appname from to) = (if to = [] then [] else [to])
    \<and> header_values ''Subject'' (createMessage rt entry appname from to)
        = [appname @ '' - '' @ Level_String (Level entry)]
    \<and> header_lines (createMessage rt entry appname from to) =
        (if from \<noteq> [] then [''From: '' @ from] else [])
        @ (if to \<noteq> [] then [''To: '' @ to] else [])
        @ [''Subject: '' @ appname @ '' - '' @ Level_String (Level entry)]"
  by (simp add: header_values_def header_lines_createMessage [OF assms(2) assms(4) assms(6)])

text \<open>The theorem at the scenario event, with a sender and no recipient.\<close>

theorem createMessage_headers_witness:
  "header_values ''From'' (createMessage small_runtime scenario_entry ''svc'' ''alice@example.com'' [])
     = [''alice@example.com'']
   \<and> header_values ''To'' (createMessage small_runtime scenario_entry ''svc'' ''alice@example.com'' []) = []
   \<and> header_values ''Subject'' (createMessage small_runtime scenario_entry ''svc'' ''alice@example.com'' [])
     = [''svc - error'']
   \<and> header_lines (createMessage small_runtime scenario_entry ''svc'' ''alice@example.com'' [])
     = [''From: alice@example.com'', ''Subject: svc - error'']"
  using createMessage_headers [of "''svc''" "''alice@example.com''" "[]" small_runtime scenario_entry]
  by (simp add: CR_def LF_def scenario_entry_def)

text \<open>
  C5 as stated fails: \<^verbatim>\<open>createMessage\<close> copies its arguments into the header block as they
  are. With an empty fromAddress and the appName \<^verbatim>\<open>"svc\r\nFrom: x"\<close> the message has a From:
  header, and its Subject: header reads \<^verbatim>\<open>svc\<close>.
\<close>

theorem createMessage_header_injection:
  "header_values ''From'' (createMessage empty_runtime scenario_entry (''svc'' @ CRLF @ ''From: x'') [] [])
     = [''x - error'']
   \<and> header_values ''Subject'' (createMessage empty_runtime scenario_entry (''svc'' @ CRLF @ ''From: x'') [] [])
     = [''svc'']"
proof -
  have m: "createMessage empty_runtime scenario_entry (''svc'' @ CRLF @ ''From: x'') [] [] =
      ''Subject: svc'' @ CRLF @ ''From: x - error'' @ CRLF @ CRLF
      @ (Time_Format (Time scenario_entry) @ '' - '' @ Message scenario_entry @ CRLF @ CRLF
         @ stack_trace empty_runtime @ CRLF @ CRLF @ ''Data:'' @ CRLF @ CRLF
         @ (case json_MarshalIndent (VMap (Data scenario_entry)) [] [TAB] of Inl err \<Rightarrow> [] | Inr b \<Rightarrow> b)
         @ CRLF @ CRLF)"
    by (simp add: createMessage_eq) (simp add: scenario_entry_def)
  have h: "header_lines (createMessage empty_runtime scenario_entry (''svc'' @ CRLF @ ''From: x'') [] []) =
      [''Subject: svc'', ''From: x - error'']"
    unfolding m by (rule header_lines_two) (simp_all add: LF_def)
  show ?thesis unfolding header_values_def h by simp
qed

text \<open>
  A line feed alone does the same, without any carriage return: with the appName
  \<^verbatim>\<open>"svc\nFrom: x"\<close> the header block read back is the same two lines.
\<close>

lemma line_feed_alone_adds_header:
  "header_lines (createMessage empty_runtime scenario_entry (''svc'' @ [LF] @ ''From: x'') [] [])
     = [''Subject: svc'', ''From: x - error'']
   \<and> CR \<notin> set (''svc'' @ [LF] @ ''From: x'')"
proof -
  let ?rest = "Time_Format (Time scenario_entry) @ '' - '' @ Message scenario_entry @ CRLF @ CRLF
         @ stack_trace empty_runtime @ CRLF @ CRLF @ ''Data:'' @ CRLF @ CRLF
         @ (case json_MarshalIndent (VMap (Data scenario_entry)) [] [TAB] of Inl err \<Rightarrow> [] | Inr b \<Rightarrow> b)
         @ CRLF @ CRLF"
  have m: "createMessage empty_runtime scenario_entry (''svc'' @ [LF] @ ''From: x'') [] [] =
      ''Subject: svc'' @ LF # (''From: x - error'' @ CRLF @ CRLF @ ?rest)"
    by (simp add: createMessage_eq) (simp add: scenario_entry_def)
  have a: "LF \<notin> set ''Subject: svc''" "CR \<notin> set ''Subject: svc''" "LF \<notin> set ''From: x - error''"
    by (simp_all add: CR_def LF_def)
  have "read_lines (''Subject: svc'' @ LF # (''From: x - error'' @ CRLF @ CRLF @ ?rest)) =
      ''Subject: svc'' # ''From: x - error'' # [] # read_lines ?rest"
    unfolding read_lines_LF [OF a(1) a(2)] read_lines_CRLF [OF a(3)]
    using read_lines_CRLF [of "[]" ?rest] by simp
  then have "header_lines (createMessage empty_runtime scenario_entry (''svc'' @ [LF] @ ''From: x'') [] []) =
      [''Subject: svc'', ''From: x - error'']"
    unfolding m header_lines_def by simp
  then show ?thesis by (simp add: CR_def LF_def)
qed

section \<open>The scenario message\<close>

text \<open>
  C6. For the event with time 2024-01-01T00:00:00Z, level Error, message "disk full" and
  fields {"volume": "/data"}, and appName "svc", whatever the stack and the addresses:
  the Subject line of the built message reads "svc - error", the first line of the body
  reads "20240101 00:00:00 - disk full", and the Data section holds the fields as JSON
  indented with a tab. The whole message is given; the last two conjuncts read the
  Subject header and the first body line back from the payload.
\<close>

theorem scenario_message:
  "createMessage rt scenario_entry ''svc'' from to =
     (if from \<noteq> [] then ''From: '' @ from @ CRLF else [])
     @ (if to \<noteq> [] then ''To: '' @ to @ CRLF else [])
     @ ''Subject: svc - error'' @ CRLF @ CRLF
     @ ''20240101 00:00:00 - disk full'' @ CRLF @ CRLF
     @ stack_trace rt @ CRLF @ CRLF
     @ ''Data:'' @ CRLF @ CRLF
     @ ''{'' @ [LF, TAB] @ [CHR 0x22] @ ''volume'' @ [CHR 0x22] @ '': ''
       @ [CHR 0x22] @ ''/data'' @ [CHR 0x22] @ [LF] @ ''}''
     @ CRLF @ CRLF
   \<and> header_values ''Subject'' (createMessage rt scenario_entry ''svc'' [] []) = [''svc - error'']
   \<and> hd (body_lines (createMessage rt scenario_entry ''svc'' [] [])) = ''20240101 00:00:00 - disk full''"
proof -
  have lv: "Level_String (Level scenario_entry) = ''error''" and msg: "Message scenario_entry = ''disk full''"
    by (simp_all add: scenario_entry_def)
  have a: "createMessage rt scenario_entry ''svc'' from to =
     (if from \<noteq> [] then ''From: '' @ from @ CRLF else [])
     @ (if to \<noteq> [] then ''To: '' @ to @ CRLF else [])
     @ ''Subject: svc - error'' @ CRLF @ CRLF
     @ ''20240101 00:00:00 - disk full'' @ CRLF @ CRLF
     @ stack_trace rt @ CRLF @ CRLF
     @ ''Data:'' @ CRLF @ CRLF
     @ ''{'' @ [LF, TAB] @ [CHR 0x22] @ ''volume'' @ [CHR 0x22] @ '': ''
       @ [CHR 0x22] @ ''/data'' @ [CHR 0x22] @ [LF] @ ''}''
     @ CRLF @ CRLF"
    by (simp add: createMessage_eq scenario_fields scenario_time lv msg)
  have cr: "LF \<notin> set ''svc''" by (simp add: LF_def)
  have b: "header_values ''Subject'' (createMessage rt scenario_entry ''svc'' [] []) = [''svc - error'']"
    by (simp add: header_values_def header_lines_createMessage [OF cr] lv LF_def)
  have l: "LF \<notin> set ''20240101 00:00:00 - disk full''" by (simp add: LF_def)
  have "body_lines (createMessage rt scenario_entry ''svc'' [] []) =
      ''20240101 00:00:00 - disk full'' #
      read_lines (CRLF @ stack_trace rt @ CRLF @ CRLF @ ''Data:'' @ CRLF @ CRLF
       @ (case json_MarshalIndent (VMap (Data scenario_entry)) [] [TAB] of Inl err \<Rightarrow> [] | Inr b \<Rightarrow> b)
       @ CRLF @ CRLF)"
    unfolding body_lines_createMessage [OF cr] scenario_time msg
    using read_lines_CRLF [OF l] by simp
  then have d: "hd (body_lines (createMessage rt scenario_entry ''svc'' [] [])) = ''20240101 00:00:00 - disk full''"
    by simp
  from a b d show ?thesis by blast
qed

section \<open>Fields that do not render\<close>

text \<open>
  C7. For every entry whose fields fail to render as JSON, the builder still returns a
  complete message, in which nothing stands between the Data: label and the closing
  blank lines; the rendering error reaches no caller of Fire: what \<^verbatim>\<open>MailHook.Fire\<close> returns
  is what the transport answered to the data command and to the payload, and
  \<^verbatim>\<open>MailAuthHook.Fire\<close> (on a hook with both addresses) returns nil.
\<close>

theorem render_error_discarded:
  assumes "json_MarshalIndent (VMap (Data entry)) [] [TAB] = Inl err"
  shows "createMessage rt entry appname from to =
     (if from \<noteq> [] then ''From: '' @ from @ CRLF else [])
     @ (if to \<noteq> [] then ''To: '' @ to @ CRLF else [])
     @ ''Subject: '' @ appname @ '' - '' @ Level_String (Level entry) @ CRLF @ CRLF
     @ Time_Format (Time entry) @ '' - '' @ Message entry @ CRLF @ CRLF
     @ stack_trace rt @ CRLF @ CRLF
     @ ''Data:'' @ CRLF @ CRLF
     @ CRLF @ CRLF
   \<and> fst (MailHook_Fire ev rt mh entry w) =
       (case server_err ev (wire w) DATA of
          Some e \<Rightarrow> Some e
        | None \<Rightarrow> server_err ev (wire w @ [DATA]) (Payload (createMessage rt entry (MailHook.AppName mh) [] [])))
   \<and> (From ah \<noteq> None \<and> To ah \<noteq> None \<longrightarrow> map_sum id fst (MailAuthHook_Fire rt ah entry w) = Inr None)"
  using assms by (auto simp add: createMessage_eq MailHook_Fire_result MailAuthHook_Fire_def Let_def)

text \<open>The theorem at an event whose only field is a channel.\<close>

theorem render_error_discarded_witness:
  "createMessage empty_runtime unrenderable_entry ''svc'' [] [] =
     ''Subject: svc - error'' @ CRLF @ CRLF @ ''20240101 00:00:00 - disk full'' @ CRLF @ CRLF
     @ CRLF @ CRLF @ ''Data:'' @ CRLF @ CRLF @ CRLF @ CRLF
   \<and> fst (MailHook_Fire friendly_env empty_runtime example_hook unrenderable_entry idle_world) = None
   \<and> map_sum id fst (MailAuthHook_Fire empty_runtime example_auth_hook unrenderable_entry idle_world) = Inr None"
  using render_error_discarded [OF unrenderable_fields, of empty_runtime "''svc''" "[]" "[]"
      friendly_env example_hook idle_world example_auth_hook]
    scenario_time
  by (simp add: stack_trace_empty_runtime unrenderable_entry_def scenario_entry_def friendly_env_def
      example_auth_hook_def)

section \<open>What the unauthenticated hook writes\<close>

text \<open>
  C2, as amended. For every log entry, \<^verbatim>\<open>MailHook.Fire\<close> builds the rendered message with an
  empty sender and an empty recipient: when the transport accepts the data command and
  the payload, the payload handed to the data channel is
  \<^verbatim>\<open>createMessage(entry, hook.AppName, "", "")\<close>, and (for an appName without line break, that is
  with neither a carriage return nor a line feed) it has no From: and no To: header; its
  header block is the Subject: line alone. A \<^verbatim>\<open>MailHook\<close> stores no addresses: they are
  declared on the session by \<^verbatim>\<open>NewMailHook\<close>.
\<close>

theorem MailHook_Fire_writes_no_address_headers:
  assumes "server_err ev (wire w) DATA = None"
    and "server_err ev (wire w @ [DATA]) (Payload message) = None"
    and "message = createMessage rt entry (MailHook.AppName hook) [] []"
    and "CR \<notin> set (MailHook.AppName hook)"
    and "LF \<notin> set (MailHook.AppName hook)"
  shows "payloads (wire (snd (MailHook_Fire ev rt hook entry w))) = payloads (wire w) @ [message]
    \<and> header_values ''From'' message = []
    \<and> header_values ''To'' message = []
    \<and> header_lines message = [''Subject: '' @ MailHook.AppName hook @ '' - '' @ Level_String (Level entry)]"
proof -
  have lf: "LF \<notin> set ([] :: string)" by simp
  have w: "payloads (wire (snd (MailHook_Fire ev rt hook entry w))) = payloads (wire w) @ [message]"
    using MailHook_Fire_wire [of ev w rt entry hook] assms(1,2)
    unfolding assms(3) by (simp add: payloads_append split: option.splits)
  have h: "header_lines message = [''Subject: '' @ MailHook.AppName hook @ '' - '' @ Level_String (Level entry)]"
    unfolding assms(3) using header_lines_createMessage [OF assms(5) lf lf, of rt entry] by simp
  show ?thesis using w h by (simp add: header_values_def)
qed

text \<open>The theorem at the scenario event, on a session that accepts everything.\<close>

theorem MailHook_Fire_writes_no_address_headers_witness:
  "payloads (wire (snd (MailHook_Fire friendly_env empty_runtime example_hook scenario_entry idle_world)))
     = [createMessage empty_runtime scenario_entry ''svc'' [] []]
   \<and> header_values ''From'' (createMessage empty_runtime scenario_entry ''svc'' [] []) = []
   \<and> header_values ''To'' (createMessage empty_runtime scenario_entry ''svc'' [] []) = []
   \<and> header_lines (createMessage empty_runtime scenario_entry ''svc'' [] []) = [''Subject: svc - error'']"
proof -
  have m: "createMessage empty_runtime scenario_entry ''svc'' [] [] =
      createMessage empty_runtime scenario_entry (MailHook.AppName example_hook) [] []"
    by (simp only: example_hook_AppName)
  have cr: "CR \<notin> set (MailHook.AppName example_hook)"
    by (simp add: example_hook_AppName CR_def)
  have lf: "LF \<notin> set (MailHook.AppName example_hook)"
    by (simp add: example_hook_AppName LF_def)
  have w: "payloads (wire idle_world) = []"
    by (simp add: idle_world_def)
  note t = MailHook_Fire_writes_no_address_headers [OF friendly_accepts friendly_accepts m cr lf,
      of idle_world]
  show ?thesis using t unfolding w example_hook_AppName scenario_level by simp
qed

text \<open>
  C2 as stated fails: a hook built by \<^verbatim>\<open>NewMailHook\<close> with a sender and a recipient writes a
  payload in which neither address is a header.
\<close>

theorem MailHook_Fire_drops_pinned_addresses:
  "fst (NewMailHook friendly_env idle_world ''svc'' ''mail.example.com'' 25 ''alice@example.com'' ''Ops <ops@example.com>'')
     = Inr example_hook
   \<and> map (header_values ''From'')
        (payloads (wire (snd (MailHook_Fire friendly_env empty_runtime example_hook scenario_entry
           (snd (NewMailHook friendly_env idle_world ''svc'' ''mail.example.com'' 25
                   ''alice@example.com'' ''Ops <ops@example.com>'')))))) = [[]]
   \<and> map (header_values ''To'')
        (payloads (wire (snd (MailHook_Fire friendly_env empty_runtime example_hook scenario_entry
           (snd (NewMailHook friendly_env idle_world ''svc'' ''mail.example.com'' 25
                   ''alice@example.com'' ''Ops <ops@example.com>'')))))) = [[]]"
proof -
  define w where "w = \<lparr>open_conns = [''mail.example.com:25''],
         wire = [MAIL ''alice@example.com'', RCPT ''ops@example.com''], goroutines = []\<rparr>"
  define m where "m = createMessage empty_runtime scenario_entry (MailHook.AppName example_hook) [] []"
  have n: "NewMailHook friendly_env idle_world ''svc'' ''mail.example.com'' 25 ''alice@example.com'' ''Ops <ops@example.com>''
     = (Inr example_hook, w)"
    unfolding w_def by (rule NewMailHook_example)
  have ww: "payloads (wire w) = []"
    by (simp add: w_def)
  have lf: "LF \<notin> set ([] :: string)" by simp
  have hs: "LF \<notin> set (MailHook.AppName example_hook)"
    by (simp add: example_hook_AppName LF_def)
  have p: "payloads (wire (snd (MailHook_Fire friendly_env empty_runtime example_hook scenario_entry w))) = [m]"
    using MailHook_Fire_wire [of friendly_env w empty_runtime scenario_entry example_hook]
      friendly_accepts [of "wire w" DATA] friendly_accepts [of "wire w @ [DATA]" "Payload m"]
    unfolding m_def by (simp add: payloads_append ww split: option.splits)
  have h: "header_lines m = [''Subject: '' @ MailHook.AppName example_hook @ '' - '' @ Level_String (Level scenario_entry)]"
    unfolding m_def using header_lines_createMessage [OF hs lf lf, of empty_runtime scenario_entry] by simp
  have v: "header_values ''From'' m = []" "header_values ''To'' m = []"
    unfolding header_values_def h by simp_all
  show ?thesis
    unfolding n fst_conv snd_conv p by (simp add: v)
qed

section \<open>The authenticated hook\<close>

text \<open>
  C1. For every log entry, \<^verbatim>\<open>MailAuthHook.Fire\<close> (on a hook with both addresses) builds the
  rendered message itself, from the runtime state of its own call, before it starts the
  goroutine: the goroutine it starts holds the finished message. Fire returns nil and
  does nothing else. Whenever the goroutine runs, in whatever world, it ends normally:
  if the server takes the message, that message is what was sent, and if the delivery
  fails, nothing changes and nobody is told.
\<close>

theorem MailAuthHook_Fire_returns_nil:
  assumes "From hook = Some sender" and "To hook = Some receiver"
  shows "MailAuthHook_Fire rt hook entry w =
      Inr (None, w\<lparr>goroutines := goroutines w @
             [SendMail_closure hook
                (createMessage rt entry (MailAuthHook.AppName hook) (Address sender) (Address receiver))]\<rparr>)
    \<and> run_goroutine ev (SendMail_closure hook message) w' =
      Inr (case server_err ev (wire w')
                  (Sent (Host hook @ '':'' @ strconv_Itoa (Port hook))
                        (smtp_PlainAuth [] (Username hook) (Password hook) (Host hook))
                        (Address sender) [Address receiver] message) of
             Some err \<Rightarrow> w'
           | None \<Rightarrow> w'\<lparr>wire := wire w' @
                 [Sent (Host hook @ '':'' @ strconv_Itoa (Port hook))
                       (smtp_PlainAuth [] (Username hook) (Password hook) (Host hook))
                       (Address sender) [Address receiver] message]\<rparr>)"
  using assms
  by (simp add: MailAuthHook_Fire_def run_goroutine_def smtp_SendMail_def send_def Let_def
      split: option.splits)

text \<open>
  The theorem at the example hook and the scenario event, with a delivery that fails.
\<close>

theorem MailAuthHook_Fire_returns_nil_witness:
  "MailAuthHook_Fire small_runtime example_auth_hook scenario_entry idle_world =
      Inr (None, idle_world\<lparr>goroutines := goroutines idle_world @
             [SendMail_closure example_auth_hook
                (createMessage small_runtime scenario_entry ''svc'' ''alice@example.com'' ''ops@example.com'')]\<rparr>)
   \<and> run_goroutine failing_env (SendMail_closure example_auth_hook ''payload'') idle_world = Inr idle_world"
proof -
  note t = MailAuthHook_Fire_returns_nil [OF example_auth_hook_fields(1) example_auth_hook_fields(2),
      of small_runtime scenario_entry idle_world failing_env "''payload''" idle_world]
  show ?thesis using t unfolding example_auth_hook_fields failing_rejects by simp
qed

text \<open>
  C10. Every hook that \<^verbatim>\<open>NewMailAuthHook\<close> returns has non-nil From and To, which are what
  the parser made of the two address arguments, and holds the appname, host, port,
  username and password it was given; so neither \<^verbatim>\<open>MailAuthHook.Fire\<close> nor the goroutine
  it starts dereferences a nil pointer on such a hook.
\<close>

theorem NewMailAuthHook_stores_arguments:
  assumes "NewMailAuthHook ev w appname host port from to username password = (Inr hook, w')"
  shows "From hook \<noteq> None \<and> To hook \<noteq> None
    \<and> mail_ParseAddress ev from = Inr (the (From hook))
    \<and> mail_ParseAddress ev to = Inr (the (To hook))
    \<and> MailAuthHook.AppName hook = appname
    \<and> Host hook = host \<and> Port hook = port \<and> Username hook = username \<and> Password hook = password
    \<and> MailAuthHook_Fire rt hook entry w2 \<noteq> Inl NilPointerDereference
    \<and> run_goroutine ev2 (SendMail_closure hook message) w2 \<noteq> Inl NilPointerDereference"
  using assms
  by (auto simp add: NewMailAuthHook_def net_DialTimeout_def MailAuthHook_Fire_def run_goroutine_def
      Let_def split: option.splits sum.splits prod.splits)

text \<open>The theorem at a construction that succeeds.\<close>

theorem NewMailAuthHook_stores_arguments_witness:
  "NewMailAuthHook friendly_env idle_world ''svc'' ''mail.example.com'' 587 ''alice@example.com''
      ''Ops <ops@example.com>'' ''alice'' ''secret'' = (Inr example_auth_hook, idle_world)
   \<and> From example_auth_hook \<noteq> None \<and> To example_auth_hook \<noteq> None
   \<and> Host example_auth_hook = ''mail.example.com'' \<and> Port example_auth_hook = 587
   \<and> Username example_auth_hook = ''alice'' \<and> Password example_auth_hook = ''secret''
   \<and> MailAuthHook_Fire small_runtime example_auth_hook scenario_entry idle_world \<noteq> Inl NilPointerDereference"
proof -
  note t = NewMailAuthHook_stores_arguments [OF NewMailAuthHook_example,
      of small_runtime scenario_entry idle_world friendly_env "[]"]
  show ?thesis using t NewMailAuthHook_example by blast
qed

section \<open>Construction\<close>

text \<open>
  C4, as amended. Given a reachable host: \<^verbatim>\<open>NewMailAuthHook\<close> succeeds iff both addresses
  parse, and leaves no connection open, whether it succeeds or fails; \<^verbatim>\<open>NewMailHook\<close> succeeds
  iff both addresses parse and the server accepts the sender and the recipient
  declaration; and either constructor, given a malformed address, fails with the error
  the address parser returned (the sender is parsed first).
\<close>

theorem constructors_validate_addresses:
  "(net_DialTimeout_err ev ''tcp'' (host @ '':'' @ strconv_Itoa port) 3 = None \<longrightarrow>
      ((\<exists>hook. fst (NewMailAuthHook ev w appname host port from to username password) = Inr hook)
         \<longleftrightarrow> (\<exists>s r. mail_ParseAddress ev from = Inr s \<and> mail_ParseAddress ev to = Inr r))
      \<and> (\<forall>e. mail_ParseAddress ev from = Inl e
             \<longrightarrow> fst (NewMailAuthHook ev w appname host port from to username password) = Inl e)
      \<and> (\<forall>s e. mail_ParseAddress ev from = Inr s \<and> mail_ParseAddress ev to = Inl e
             \<longrightarrow> fst (NewMailAuthHook ev w appname host port from to username password) = Inl e)
      \<and> open_conns (snd (NewMailAuthHook ev w appname host port from to username password)) = open_conns w)
   \<and> (smtp_Dial_err ev (host @ '':'' @ strconv_Itoa port) = None \<longrightarrow>
      ((\<exists>hook. fst (NewMailHook ev w appname host port from to) = Inr hook)
         \<longleftrightarrow> (\<exists>s r. mail_ParseAddress ev from = Inr s \<and> mail_ParseAddress ev to = Inr r
                   \<and> server_err ev (wire w) (MAIL (Address s)) = None
                   \<and> server_err ev (wire w @ [MAIL (Address s)]) (RCPT (Address r)) = None))
      \<and> (\<forall>e. mail_ParseAddress ev from = Inl e
             \<longrightarrow> fst (NewMailHook ev w appname host port from to) = Inl e)
      \<and> (\<forall>s e. mail_ParseAddress ev from = Inr s \<and> mail_ParseAddress ev to = Inl e
             \<longrightarrow> fst (NewMailHook ev w appname host port from to) = Inl e))"
proof (intro conjI impI)
  assume d: "net_DialTimeout_err ev ''tcp'' (host @ '':'' @ strconv_Itoa port) 3 = None"
  note r = NewMailAuthHook_result [OF d, of w appname "from" "to" username password]
  show "(\<exists>hook. fst (NewMailAuthHook ev w appname host port from to username password) = Inr hook)
         \<longleftrightarrow> (\<exists>s r. mail_ParseAddress ev from = Inr s \<and> mail_ParseAddress ev to = Inr r)"
    unfolding r by (auto split: sum.splits)
  show "\<forall>e. mail_ParseAddress ev from = Inl e
             \<longrightarrow> fst (NewMailAuthHook ev w appname host port from to username password) = Inl e"
    unfolding r by simp
  show "\<forall>s e. mail_ParseAddress ev from = Inr s \<and> mail_ParseAddress ev to = Inl e
             \<longrightarrow> fst (NewMailAuthHook ev w appname host port from to username password) = Inl e"
    unfolding r by simp
  show "open_conns (snd (NewMailAuthHook ev w appname host port from to username password)) = open_conns w"
    unfolding r by simp
next
  assume d: "smtp_Dial_err ev (host @ '':'' @ strconv_Itoa port) = None"
  note r = NewMailHook_result [OF d, of w appname "from" "to"]
  show "(\<exists>hook. fst (NewMailHook ev w appname host port from to) = Inr hook)
         \<longleftrightarrow> (\<exists>s r. mail_ParseAddress ev from = Inr s \<and> mail_ParseAddress ev to = Inr r
                   \<and> server_err ev (wire w) (MAIL (Address s)) = None
                   \<and> server_err ev (wire w @ [MAIL (Address s)]) (RCPT (Address r)) = None)"
    unfolding r by (auto split: sum.splits option.splits)
  show "\<forall>e. mail_ParseAddress ev from = Inl e
             \<longrightarrow> fst (NewMailHook ev w appname host port from to) = Inl e"
    unfolding r by simp
  show "\<forall>s e. mail_ParseAddress ev from = Inr s \<and> mail_ParseAddress ev to = Inl e
             \<longrightarrow> fst (NewMailHook ev w appname host port from to) = Inl e"
    unfolding r by simp
qed

text \<open>
  The theorem where every dial succeeds and the server accepts everything: with a
  malformed sender both constructors fail with the parser's error and the probe of
  \<^verbatim>\<open>NewMailAuthHook\<close> is closed; with two well-formed addresses both succeed.
\<close>

theorem constructors_validate_addresses_witness:
  "fst (NewMailAuthHook friendly_env idle_world ''svc'' ''mail.example.com'' 587 ''not an address''
          ''Ops <ops@example.com>'' ''alice'' ''secret'') = Inl AddressFormatError
   \<and> open_conns (snd (NewMailAuthHook friendly_env idle_world ''svc'' ''mail.example.com'' 587 ''not an address''
          ''Ops <ops@example.com>'' ''alice'' ''secret'')) = open_conns idle_world
   \<and> fst (NewMailHook friendly_env idle_world ''svc'' ''mail.example.com'' 25 ''not an address''
          ''Ops <ops@example.com>'') = Inl AddressFormatError
   \<and> (\<exists>hook. fst (NewMailAuthHook friendly_env idle_world ''svc'' ''mail.example.com'' 587 ''alice@example.com''
          ''Ops <ops@example.com>'' ''alice'' ''secret'') = Inr hook)
   \<and> (\<exists>hook. fst (NewMailHook friendly_env idle_world ''svc'' ''mail.example.com'' 25 ''alice@example.com''
          ''Ops <ops@example.com>'') = Inr hook)"
proof -
  note bad_auth = constructors_validate_addresses [of friendly_env "''mail.example.com''" 587 idle_world
      "''svc''" "''not an address''" "''Ops <ops@example.com>''" "''alice''" "''secret''"]
  note bad_plain = constructors_validate_addresses [of friendly_env "''mail.example.com''" 25 idle_world
      "''svc''" "''not an address''" "''Ops <ops@example.com>''" "''alice''" "''secret''"]
  note good_auth = constructors_validate_addresses [of friendly_env "''mail.example.com''" 587 idle_world
      "''svc''" "''alice@example.com''" "''Ops <ops@example.com>''" "''alice''" "''secret''"]
  note good_plain = constructors_validate_addresses [of friendly_env "''mail.example.com''" 25 idle_world
      "''svc''" "''alice@example.com''" "''Ops <ops@example.com>''" "''alice''" "''secret''"]
  have a: "fst (NewMailAuthHook friendly_env idle_world ''svc'' ''mail.example.com'' 587 ''not an address''
          ''Ops <ops@example.com>'' ''alice'' ''secret'') = Inl AddressFormatError"
    using bad_auth by (simp add: friendly_dials friendly_parser)
  have b: "open_conns (snd (NewMailAuthHook friendly_env idle_world ''svc'' ''mail.example.com'' 587 ''not an address''
          ''Ops <ops@example.com>'' ''alice'' ''secret'')) = open_conns idle_world"
    using bad_auth by (simp add: friendly_dials)
  have c1: "fst (NewMailHook friendly_env idle_world ''svc'' ''mail.example.com'' 25 ''not an address''
          ''Ops <ops@example.com>'') = Inl AddressFormatError"
    using bad_plain by (simp add: friendly_dials friendly_parser)
  have d: "\<exists>hook. fst (NewMailAuthHook friendly_env idle_world ''svc'' ''mail.example.com'' 587 ''alice@example.com''
          ''Ops <ops@example.com>'' ''alice'' ''secret'') = Inr hook"
    using good_auth by (simp add: friendly_dials friendly_parser)
  have e: "\<exists>hook. fst (NewMailHook friendly_env idle_world ''svc'' ''mail.example.com'' 25 ''alice@example.com''
          ''Ops <ops@example.com>'') = Inr hook"
    using good_plain by (simp add: friendly_dials friendly_parser friendly_accepts)
  from a b c1 d e show ?thesis by blast
qed

text \<open>
  C4 as stated fails for \<^verbatim>\<open>NewMailHook\<close>. Both addresses parse and the host is reachable, yet
  construction fails when the server rejects the sender declaration; and with a
  malformed sender the connection dialled first is still open when \<^verbatim>\<open>NewMailHook\<close> returns
  the parser's error.
\<close>

theorem NewMailHook_rejected_and_leaking:
  "mail_ParseAddress rejecting_env ''alice@example.com'' = Inr \<lparr>Name = [], Address = ''alice@example.com''\<rparr>
   \<and> mail_ParseAddress rejecting_env ''Ops <ops@example.com>'' = Inr \<lparr>Name = ''Ops'', Address = ''ops@example.com''\<rparr>
   \<and> smtp_Dial_err rejecting_env ''mail.example.com:25'' = None
   \<and> fst (NewMailHook rejecting_env idle_world ''svc'' ''mail.example.com'' 25 ''alice@example.com''
          ''Ops <ops@example.com>'') = Inl ProtocolError
   \<and> NewMailHook friendly_env idle_world ''svc'' ''mail.example.com'' 25 ''not an address''
          ''Ops <ops@example.com>'' = (Inl AddressFormatError, idle_world\<lparr>open_conns := [''mail.example.com:25'']\<rparr>)"
  by (simp add: NewMailHook_def smtp_Dial_def send_def rejecting_env_def friendly_env_def idle_world_def
      example_parser_def strconv_Itoa_def fmt_d_def digit_char_def)

section \<open>Determinism\<close>

text \<open>
  C9. The message builder is deterministic: two invocations with the same stack state,
  the same appName, fromAddress and toAddress, and entries with the same timestamp, level
  and message and the same fields return identical buffers. Two entries have the same
  fields when their association lists denote the same map, in whatever order a map
  iteration lists them: \<^verbatim>\<open>json.MarshalIndent\<close> sorts the keys.
\<close>

theorem createMessage_deterministic:
  assumes "distinct (map fst (Data e1))" and "distinct (map fst (Data e2))"
    and "map_of (Data e1) = map_of (Data e2)"
    and "Time e1 = Time e2" and "Level e1 = Level e2" and "Message e1 = Message e2"
  shows "createMessage rt e1 appname from to = createMessage rt e2 appname from to"
  using json_MarshalIndent_same_map [OF assms(1,2,3), of "[]" "[TAB]"] assms(4,5,6)
  by (simp add: createMessage_eq)

text \<open>The theorem at two enumerations of the same two fields.\<close>

theorem createMessage_deterministic_witness:
  "createMessage small_runtime reordered_entry ''svc'' ''alice@example.com'' ''ops@example.com''
     = createMessage small_runtime ordered_entry ''svc'' ''alice@example.com'' ''ops@example.com''"
proof -
  have d1: "distinct (map fst (Data reordered_entry))" and d2: "distinct (map fst (Data ordered_entry))"
    by (simp_all add: reordered_entry_def ordered_entry_def)
  have m: "map_of (Data reordered_entry) = map_of (Data ordered_entry)"
    by (auto simp add: reordered_entry_def ordered_entry_def fun_eq_iff)
  have r: "Time reordered_entry = Time ordered_entry" "Level reordered_entry = Level ordered_entry"
    "Message reordered_entry = Message ordered_entry"
    by (simp_all add: reordered_entry_def ordered_entry_def)
  show ?thesis
    by (rule createMessage_deterministic [OF d1 d2 m r])
qed

section \<open>The stack-trace section\<close>

text \<open>
  C3, as amended. For every call-stack state, the stack-trace section that
  \<^verbatim>\<open>createMessage\<close> of mail.go produces is one entry per traced frame, numbered from 0, and
  nothing else. The traced frames start at the frame of the builder itself (frame 1 of
  the stack, which \<^verbatim>\<open>runtime.Callers(1, ...)\<close> reports first) and are at most
  \<open>MAX_DEPTH + 1 = 101\<close>; every traced frame resolves; and when a frame within that
  range fails to resolve, the trace ends before it: the unresolved frame and the frames
  behind it get no entry. Where the traced frames resolve cleanly, the lines of the trace
  that a reader takes for frame headings are exactly \<^verbatim>\<open>Frame 00:\<close>, \<^verbatim>\<open>Frame 01:\<close>, ..., one per
  traced frame.
\<close>

theorem stack_trace_frames:
  "stack_trace rt = frames_text rt 0 (traced_frames rt)
   \<and> length (traced_frames rt) \<le> MAX_DEPTH + 1
   \<and> traced_frames rt = take (length (traced_frames rt)) (drop 1 (stack rt))
   \<and> list_all (\<lambda>pc. FuncForPC rt pc \<noteq> None) (traced_frames rt)
   \<and> (length (traced_frames rt) < min (MAX_DEPTH + 1) (length (stack rt) - 1)
        \<longrightarrow> FuncForPC rt (stack rt ! Suc (length (traced_frames rt))) = None)
   \<and> (list_all (resolves_cleanly rt) (traced_frames rt)
        \<longrightarrow> frame_lines (stack_trace rt) =
            map (\<lambda>k. ''Frame '' @ fmt_02d (int k) @ '':'') [0..<length (traced_frames rt)])"
proof -
  let ?P = "\<lambda>pc. FuncForPC rt pc \<noteq> None"
  let ?xs = "take (MAX_DEPTH + 1) (drop 1 (stack rt))"
  have tf: "traced_frames rt = takeWhile ?P ?xs"
    by (simp add: traced_frames_def)
  have len: "length (traced_frames rt) \<le> length ?xs"
    unfolding tf by (rule length_takeWhile_le)
  then have a: "length (traced_frames rt) \<le> MAX_DEPTH + 1"
    by simp
  have "traced_frames rt = take (length (traced_frames rt)) ?xs"
    unfolding tf by (rule takeWhile_eq_take)
  also have "\<dots> = take (length (traced_frames rt)) (drop 1 (stack rt))"
    using a by (simp add: min_absorb1)
  finally have b: "traced_frames rt = take (length (traced_frames rt)) (drop 1 (stack rt))" .
  have c: "list_all ?P (traced_frames rt)"
    unfolding tf list_all_iff by (auto dest: set_takeWhileD)
  have d: "FuncForPC rt (stack rt ! Suc (length (traced_frames rt))) = None"
    if lt: "length (traced_frames rt) < min (MAX_DEPTH + 1) (length (stack rt) - 1)"
  proof -
    from lt have l: "length (takeWhile ?P ?xs) < length ?xs"
      unfolding tf [symmetric] by simp
    have "\<not> ?P (?xs ! length (takeWhile ?P ?xs))"
      by (rule nth_length_takeWhile [OF l])
    moreover have "Suc 0 \<le> length (stack rt)"
      using lt by arith
    then have "?xs ! length (takeWhile ?P ?xs) = stack rt ! Suc (length (traced_frames rt))"
      using lt unfolding tf [symmetric] by (simp add: nth_drop)
    ultimately show ?thesis by simp
  qed
  from stack_trace_eq a b c d frame_lines_stack_trace show ?thesis
    by blast
qed

text \<open>
  The theorem at a stack whose fourth frame does not resolve: the trace has the
  entries of the builder and of its caller, and none for the unresolved frame or the
  resolvable frame behind it.
\<close>

theorem stack_trace_frames_witness:
  "stack_trace broken_runtime = frames_text broken_runtime 0 [0x2000, 0x3000]
   \<and> traced_frames broken_runtime = [0x2000, 0x3000]
   \<and> FuncForPC broken_runtime (stack broken_runtime ! Suc (Suc (Suc 0))) = None
   \<and> frame_lines (stack_trace broken_runtime) = [''Frame 00:'', ''Frame 01:'']"
proof -
  note t = stack_trace_frames [of broken_runtime, unfolded traced_frames_broken_runtime]
  have cl: "list_all (resolves_cleanly broken_runtime) [0x2000, 0x3000]"
    by (simp add: broken_runtime_def example_funcs_clean)
  have lt: "length [0x2000, 0x3000 :: uintptr] < min (MAX_DEPTH + 1) (length (stack broken_runtime) - 1)"
    by (simp add: broken_runtime_def MAX_DEPTH_def)
  have a: "stack_trace broken_runtime = frames_text broken_runtime 0 [0x2000, 0x3000]"
    using t by (rule conjunct1)
  have "FuncForPC broken_runtime (stack broken_runtime ! Suc (length [0x2000, 0x3000 :: uintptr])) = None"
    using t [THEN conjunct2, THEN conjunct2, THEN conjunct2, THEN conjunct2, THEN conjunct1] lt
    by (rule mp)
  then have b: "FuncForPC broken_runtime (stack broken_runtime ! Suc (Suc (Suc 0))) = None"
    by simp
  have "frame_lines (stack_trace broken_runtime) =
      map (\<lambda>k. ''Frame '' @ fmt_02d (int k) @ '':'') [0..<length [0x2000, 0x3000 :: uintptr]]"
    using t [THEN conjunct2, THEN conjunct2, THEN conjunct2, THEN conjunct2, THEN conjunct2] cl
    by (rule mp)
  also have "[0..<length [0x2000, 0x3000 :: uintptr]] = [0, Suc 0]"
    by (simp add: upt_rec)
  finally have d: "frame_lines (stack_trace broken_runtime) = [''Frame 00:'', ''Frame 01:'']"
    by (simp add: fmt_02d_values)
  from a traced_frames_broken_runtime b d show ?thesis by blast
qed

text \<open>
  C3 as stated fails on a stack of 153 resolvable frames: the trace has 101 frame
  headings, the last of them \<^verbatim>\<open>Frame 100:\<close>, and its first entry is the frame of
  \<^verbatim>\<open>createMessage\<close> itself, not of its caller.
\<close>

theorem stack_trace_deep_runtime:
  "length (frame_lines (stack_trace deep_runtime)) = 101
   \<and> last (frame_lines (stack_trace deep_runtime)) = ''Frame 100:''
   \<and> take 3 (split_crlf (stack_trace deep_runtime)) =
       [''Frame 00:'', TAB # ''File: /src/mail.go'', TAB # ''Function: logrus_mail.createMessage'']"
proof -
  have cl: "list_all (resolves_cleanly deep_runtime) (traced_frames deep_runtime)"
    unfolding traced_frames_deep_runtime
    by (simp add: deep_runtime_def example_funcs_clean list_all_iff)
  have n: "length (traced_frames deep_runtime) = 101"
    unfolding traced_frames_deep_runtime by simp
  have fl: "frame_lines (stack_trace deep_runtime) =
      map (\<lambda>k. ''Frame '' @ fmt_02d (int k) @ '':'') [0..<101]"
    using frame_lines_stack_trace [OF cl] unfolding n .
  have a: "length (frame_lines (stack_trace deep_runtime)) = 101"
    unfolding fl by simp
  have "last (frame_lines (stack_trace deep_runtime)) = ''Frame '' @ fmt_02d 100 @ '':''"
    unfolding fl by (simp add: last_map)
  then have b: "last (frame_lines (stack_trace deep_runtime)) = ''Frame 100:''"
    by (simp add: fmt_02d_values)
  have f: "FuncForPC deep_runtime 0x2000 = Some \<lparr>Func_Name = ''logrus_mail.createMessage'', Func_Entry = 0x1F00,
      Func_FileLine = (\<lambda>p. (''/src/mail.go'', 161))\<rparr>"
    by (simp add: deep_runtime_def example_funcs_values)
  define fn where "fn = \<lparr>Func_Name = ''logrus_mail.createMessage'', Func_Entry = 0x1F00,
      Func_FileLine = (\<lambda>p :: uintptr. (''/src/mail.go'', 161 :: int))\<rparr>"
  have c1: "CR \<notin> set (Func_Name fn)" and c2: "CR \<notin> set (fst (Func_FileLine fn 0x2000))"
    by (simp_all add: fn_def CR_def)
  have "stack_trace deep_runtime =
      frame_entry fn 0 0x2000 @ frames_text deep_runtime (Suc 0) (0x3000 # replicate 99 0x4000)"
    unfolding stack_trace_eq traced_frames_deep_runtime by (simp add: f fn_def)
  then have "take 3 (split_crlf (stack_trace deep_runtime)) =
      [''Frame '' @ fmt_02d 0 @ '':'', [TAB] @ ''File: '' @ fst (Func_FileLine fn 0x2000),
       [TAB] @ ''Function: '' @ Func_Name fn]"
    by (simp add: split_crlf_frame_entry [OF c1 c2])
  then have d: "take 3 (split_crlf (stack_trace deep_runtime)) =
       [''Frame 00:'', TAB # ''File: /src/mail.go'', TAB # ''Function: logrus_mail.createMessage'']"
    by (simp add: fmt_02d_values fn_def)
  from a b d show ?thesis by blast
qed

section \<open>The older variant of the loop\<close>

text \<open>
  In \<^verbatim>\<open>src/unnamed/part_000\<close> the line of a frame is appended before \<^verbatim>\<open>ok\<close> is tested, so the frame
  that does not resolve still gets a line, with the zero values \<^verbatim>\<open>runtime.Caller\<close> returned for it.
\<close>

lemma trace_loop_part_000_unresolved:
  assumes "i < 100" and "runtime_Caller i = (pc, src_file, src_line, False)"
  shows "trace_loop_part_000 runtime_Caller i trace =
     trace @ fmt_02d (int i) @ '': 0x'' @ fmt_08x pc @ '' '' @ src_file @ '':'' @ fmt_d src_line @ CRLF"
  using assms by (subst trace_loop_part_000.simps) simp

lemma trace_loop_part_000_resolved:
  assumes "i < 100" and "runtime_Caller i = (pc, src_file, src_line, True)"
  shows "trace_loop_part_000 runtime_Caller i trace =
     trace_loop_part_000 runtime_Caller (Suc i)
       (trace @ fmt_02d (int i) @ '': 0x'' @ fmt_08x pc @ '' '' @ src_file @ '':'' @ fmt_d src_line @ CRLF)"
  using assms by (subst trace_loop_part_000.simps) simp

lemma replicate_numeral: "replicate (numeral k) x = x # replicate (pred_numeral k) x"
  by (simp add: numeral_eq_Suc)

lemma fmt_values:
  "fmt_08x 0x2000 = ''00002000''" "fmt_08x 0 = ''00000000''" "fmt_d 161 = ''161''" "fmt_d 0 = ''0''"
  by (simp_all add: fmt_08x_def fmt_d_def pad0_def digit_char_def replicate_numeral)

lemma trace_loop_part_000_example:
  "trace_loop_part_000
     (\<lambda>i. if i = 0 then (0x2000, ''/src/mail.go'', 161, True) else (0, [], 0, False)) 0 [] =
   ''00: 0x00002000 /src/mail.go:161'' @ CRLF @ ''01: 0x00000000 :0'' @ CRLF"
proof -
  let ?caller = "\<lambda>i :: nat. if i = 0 then (0x2000 :: uintptr, ''/src/mail.go'', 161 :: int, True) else (0, [], 0, False)"
  have "trace_loop_part_000 ?caller 0 [] =
      trace_loop_part_000 ?caller (Suc 0)
        ([] @ fmt_02d (int 0) @ '': 0x'' @ fmt_08x 0x2000 @ '' '' @ ''/src/mail.go'' @ '':'' @ fmt_d 161 @ CRLF)"
    using trace_loop_part_000_resolved [of 0 ?caller "0x2000" "''/src/mail.go''" 161 "[]"] by simp
  also have "\<dots> = ([] @ fmt_02d (int 0) @ '': 0x'' @ fmt_08x 0x2000 @ '' '' @ ''/src/mail.go'' @ '':'' @ fmt_d 161 @ CRLF)
      @ fmt_02d (int (Suc 0)) @ '': 0x'' @ fmt_08x 0 @ '' '' @ [] @ '':'' @ fmt_d 0 @ CRLF"
    using trace_loop_part_000_unresolved [of "Suc 0" ?caller 0 "[]" 0] by simp
  finally show ?thesis
    by (simp add: fmt_values fmt_02d_values)
qed

end
